theory Spec2Isabelle
  imports Complex_Main
begin

section \<open>The Chronos forecaster adapter (sktime/forecasting/chronos.py)\<close>

text \<open>
  A shallow embedding of \<^verbatim>\<open>ChronosForecaster\<close>: \<^verbatim>\<open>__init__\<close>, \<^verbatim>\<open>_fit\<close>, \<^verbatim>\<open>_predict\<close> and the
  module functions \<^verbatim>\<open>_same_index\<close> and \<^verbatim>\<open>_frame2numpy\<close>.

  Conventions.
  \<^item> A Python name with a leading underscore is written with a trailing prime:
    \<^verbatim>\<open>_predict\<close> is \<open>predict'\<close>, \<^verbatim>\<open>self._seed\<close> is \<open>seed'\<close>.
  \<^item> Every \<^verbatim>\<open>raise\<close> is a value \<open>Inl e\<close> of the result type \<open>error + 'a\<close>.
  \<^item> The attributes of the forecaster object are the record \<open>ChronosForecaster\<close>;
    everything outside the object that the code reads or changes (the data frames it
    holds references to, the process-wide random state, the calls received by the
    pretrained pipeline and by its loader) is the record \<open>world\<close>.
  \<^item> Array and frame entries are real numbers: rounding to float32/float64 is not
    modelled.
\<close>

subsection \<open>Python values and errors\<close>

datatype error =
    ValueError
  | AssertionError
  | IndexError
  | KeyError
  | AttributeError
  | ExternalError string  \<comment> \<open>raised inside the pipeline or its loader\<close>

text \<open>The values a configuration dictionary holds (Python is dynamically typed).\<close>

datatype cfg_value =
    PyNone
  | PyBool bool
  | PyInt int
  | PyFloat real
  | PyStr string
  | TorchDtype string

type_synonym cfg = "string \<rightharpoonup> cfg_value"

text \<open>\<^verbatim>\<open>d[k]\<close> on a dictionary raises \<^verbatim>\<open>KeyError\<close> on a missing key.\<close>

definition getitem :: "cfg \<Rightarrow> string \<Rightarrow> error + cfg_value" where
  "getitem d k = (case d k of None \<Rightarrow> Inl KeyError | Some v \<Rightarrow> Inr v)"

subsection \<open>Data frames\<close>

text \<open>
  A pandas index is either flat (one time point per row) or a \<^verbatim>\<open>MultiIndex\<close>, whose last
  level is the time point and whose other levels together are the group key \<open>'k\<close>
  (what \<^verbatim>\<open>index.droplevel(-1)\<close> leaves). Time points are integers.
\<close>

datatype 'k index = Index "int list" | MultiIndex "('k \<times> int) list"

text \<open>\<open>vals\<close> is \<^verbatim>\<open>DataFrame.values\<close>: one list per row, one entry per column.\<close>

record 'k DataFrame =
  index :: "'k index"
  names :: "string list"
  columns :: "string list"
  vals :: "real list list"

fun index_len :: "'k index \<Rightarrow> nat" where
  "index_len (Index ts) = length ts"
| "index_len (MultiIndex ix) = length ix"

text \<open>\<^verbatim>\<open>index.get_level_values(-1)\<close>: the time point of every row.\<close>

fun get_level_values_last :: "'k index \<Rightarrow> int list" where
  "get_level_values_last (Index ts) = ts"
| "get_level_values_last (MultiIndex ix) = map snd ix"

text \<open>
  \<^verbatim>\<open>pd.DataFrame(data, index=index, columns=columns)\<close> for a two-dimensional \<open>data\<close>:
  pandas raises \<^verbatim>\<open>ValueError\<close> when the shape of the data is not
  (length of the index, number of columns).
\<close>

definition pd_DataFrame :: "real list list \<Rightarrow> 'k index \<Rightarrow> string list \<Rightarrow> error + 'k DataFrame" where
  "pd_DataFrame dat ix cols =
     (if length dat = index_len ix \<and> list_all (\<lambda>r. length r = length cols) dat
      then Inr \<lparr>index = ix, names = [], columns = cols, vals = dat\<rparr>
      else Inl ValueError)"

text \<open>Selecting by a boolean mask keeps the rows whose mask entry is true.\<close>

definition mask_list :: "bool list \<Rightarrow> 'a list \<Rightarrow> 'a list" where
  "mask_list m xs = map snd (filter fst (zip m xs))"

fun mask_index :: "bool list \<Rightarrow> 'k index \<Rightarrow> 'k index" where
  "mask_index m (Index ts) = Index (mask_list m ts)"
| "mask_index m (MultiIndex ix) = MultiIndex (mask_list m ix)"

definition loc :: "'k DataFrame \<Rightarrow> bool list \<Rightarrow> 'k DataFrame" where
  "loc df m = df\<lparr>index := mask_index m (index df), vals := mask_list m (vals df)\<rparr>"

subsection \<open>The forecasting horizon\<close>

text \<open>
  Modelled from the spec: the framework's \<^verbatim>\<open>ForecastingHorizon\<close>
  (sktime.forecasting.base) is not among the sources. The spec describes a horizon as an
  ordered set of future time points or of step offsets relative to the end of the
  historical series (the cutoff). Time points are integers one step apart, so the
  absolute point of offset \<open>r\<close> is \<open>cutoff + r\<close>.
\<close>

record ForecastingHorizon =
  fh_values :: "int list"
  is_relative :: bool

definition to_relative :: "ForecastingHorizon \<Rightarrow> int \<Rightarrow> int list" where
  "to_relative fh cutoff =
     (if is_relative fh then fh_values fh else map (\<lambda>t. t - cutoff) (fh_values fh))"

definition to_absolute :: "ForecastingHorizon \<Rightarrow> int \<Rightarrow> int list" where
  "to_absolute fh cutoff =
     (if is_relative fh then map (\<lambda>r. cutoff + r) (fh_values fh) else fh_values fh)"

text \<open>
  Modelled from the spec: \<^verbatim>\<open>fh.get_expected_pred_idx(_y, cutoff=...)\<close>, called with the
  reshaped array (which has no index), yields the time points of the requested horizon.
\<close>

definition get_expected_pred_idx :: "ForecastingHorizon \<Rightarrow> int \<Rightarrow> int list" where
  "get_expected_pred_idx fh cutoff = to_absolute fh cutoff"

text \<open>\<^verbatim>\<open>ForecastingHorizon(range(1, n + 1))\<close>: the relative horizon of steps 1 to n.\<close>

definition fh_range :: "nat \<Rightarrow> ForecastingHorizon" where
  "fh_range n = \<lparr>fh_values = [1..int n], is_relative = True\<rparr>"

text \<open>\<^verbatim>\<open>max\<close> of an iterable raises \<^verbatim>\<open>ValueError\<close> when it is empty.\<close>

definition py_max :: "int list \<Rightarrow> error + int" where
  "py_max xs = (case xs of [] \<Rightarrow> Inl ValueError | x # ys \<Rightarrow> Inr (fold max ys x))"

subsection \<open>The pipeline, the forecaster object and the world\<close>

text \<open>
  One call of \<^verbatim>\<open>model_pipeline.predict\<close>: the history tensor, the prediction length and
  the keyword arguments.
\<close>

record pcall =
  arg_context :: "real list"
  prediction_length :: int
  num_samples :: cfg_value
  temperature :: cfg_value
  top_k :: cfg_value
  top_p :: cfg_value
  limit_prediction_length :: bool

text \<open>
  The pipeline is opaque. It exposes \<^verbatim>\<open>model.config.context_length\<close> and \<^verbatim>\<open>predict\<close>,
  which draws from the process-wide random state \<open>'r\<close> and returns either an error or a
  tensor of shape (batch, samples, steps), here a list of batches of sampled trajectories.
\<close>

record 'r ChronosPipeline =
  context_length :: int
  predict :: "'r \<Rightarrow> pcall \<Rightarrow> (error + real list list list) \<times> 'r"

type_synonym addr = nat

text \<open>
  The attributes of the object. \<open>y'\<close> (\<^verbatim>\<open>self._y\<close>, a reference to the series retained
  at fit time) and \<open>cutoff\<close> (\<^verbatim>\<open>self.cutoff\<close>, the last observed time point) belong to the
  framework's base class, which sets them before \<^verbatim>\<open>_predict\<close> runs.
  \<open>context_attr\<close> is \<^verbatim>\<open>self.context\<close>.
\<close>

record 'r ChronosForecaster =
  seed :: "int option"
  seed' :: int
  config :: "cfg option"
  config' :: cfg
  model_path :: string
  model_pipeline :: "'r ChronosPipeline option"
  context_attr :: "unit option"
  y' :: addr
  cutoff :: int

text \<open>
  The world: data frames live in a store and are passed by reference, \<open>rng\<close> is the
  random state that \<^verbatim>\<open>transformers.set_seed\<close> resets, and the two logs record the calls
  made to the pipeline (with what it answered) and to the loader.
\<close>

record ('k, 'r) world =
  heap :: "addr \<Rightarrow> 'k DataFrame"
  next_addr :: addr
  rng :: 'r
  predict_log :: "(pcall \<times> (error + real list list list)) list"
  load_log :: "(string \<times> cfg_value \<times> cfg_value) list"

text \<open>\<^verbatim>\<open>df.copy()\<close> allocates a new frame with the same content.\<close>

definition copy :: "addr \<Rightarrow> ('k, 'r) world \<Rightarrow> addr \<times> ('k, 'r) world" where
  "copy a w =
     (next_addr w,
      w\<lparr>heap := (heap w)(next_addr w := heap w a), next_addr := Suc (next_addr w)\<rparr>)"

subsection \<open>\<^verbatim>\<open>__init__\<close>\<close>

text \<open>
  \<^verbatim>\<open>_default_config\<close>. \<open>bfloat16\<close> is the module's \<^verbatim>\<open>torch.bfloat16\<close>: the dtype when torch
  is installed, \<^verbatim>\<open>None\<close> for the dummy class.
\<close>

definition default_config' :: "cfg_value \<Rightarrow> cfg" where
  "default_config' bfloat16 =
     [''num_samples'' \<mapsto> PyNone,
      ''temperature'' \<mapsto> PyNone,
      ''top_k'' \<mapsto> PyNone,
      ''top_p'' \<mapsto> PyNone,
      ''limit_prediction_length'' \<mapsto> PyBool False,
      ''torch_dtype'' \<mapsto> bfloat16,
      ''device_map'' \<mapsto> PyStr ''cpu'']"

text \<open>
  \<open>self\<close> is the object after \<^verbatim>\<open>super().__init__()\<close>; \<open>drawn\<close> is the integer that
  \<^verbatim>\<open>np.random.randint(0, 2**31)\<close> returns, used only when no seed is given.
\<close>

definition init ::
  "cfg_value \<Rightarrow> int \<Rightarrow> 'r ChronosForecaster \<Rightarrow> string \<Rightarrow> cfg option \<Rightarrow> int option
     \<Rightarrow> 'r ChronosForecaster" where
  "init bfloat16 drawn self model_path_arg config_arg seed_arg =
     self\<lparr>seed := seed_arg,
          seed' := (case seed_arg of None \<Rightarrow> drawn | Some s \<Rightarrow> s),
          config := config_arg,
          config' := default_config' bfloat16
                       ++ (case config_arg of Some c \<Rightarrow> c | None \<Rightarrow> Map.empty),
          model_path := model_path_arg,
          model_pipeline := None,
          context_attr := None\<rparr>"

subsection \<open>\<^verbatim>\<open>_fit\<close>\<close>

text \<open>
  \<open>from_pretrained\<close> is \<^verbatim>\<open>ChronosPipeline.from_pretrained\<close>, the loading capability.
  Every invocation is recorded in \<open>load_log\<close>, also one that raises.
\<close>

definition fit' ::
  "(string \<Rightarrow> cfg_value \<Rightarrow> cfg_value \<Rightarrow> error + 'r ChronosPipeline)
     \<Rightarrow> 'r ChronosForecaster \<Rightarrow> ('k, 'r) world
     \<Rightarrow> (error + unit) \<times> 'r ChronosForecaster \<times> ('k, 'r) world" where
  "fit' from_pretrained self w =
     (case model_pipeline self of
        Some p \<Rightarrow> (Inr (), self, w)
      | None \<Rightarrow>
         (case getitem (config' self) ''torch_dtype'' of
            Inl e \<Rightarrow> (Inl e, self, w)
          | Inr torch_dtype \<Rightarrow>
             (case getitem (config' self) ''device_map'' of
                Inl e \<Rightarrow> (Inl e, self, w)
              | Inr device_map \<Rightarrow>
                 (let w' = w\<lparr>load_log :=
                            load_log w @ [(model_path self, torch_dtype, device_map)]\<rparr>
                  in case from_pretrained (model_path self) torch_dtype device_map of
                       Inl e \<Rightarrow> (Inl e, self, w')
                     | Inr p \<Rightarrow> (Inr (), self\<lparr>model_pipeline := Some p\<rparr>, w')))))"

subsection \<open>numpy helpers\<close>

text \<open>\<^verbatim>\<open>np.unique\<close>: the distinct elements, sorted.\<close>

definition np_unique :: "'k::linorder list \<Rightarrow> 'k list" where
  "np_unique xs = sort (remdups xs)"

text \<open>\<^verbatim>\<open>a.repeat(n)\<close>: every element n times in a row.\<close>

definition np_repeat :: "nat \<Rightarrow> 'a list \<Rightarrow> 'a list" where
  "np_repeat n xs = concat (map (replicate n) xs)"

text \<open>
  \<^verbatim>\<open>a[-c:]\<close> on a one-dimensional array, for a Python integer \<open>c\<close>. A negative start
  counts from the end and is clipped at the first element; \<^verbatim>\<open>-0\<close> is \<^verbatim>\<open>0\<close>, the whole
  array.
\<close>

definition slice_last :: "int \<Rightarrow> 'a list \<Rightarrow> 'a list" where
  "slice_last c xs =
     (if 0 < c then drop (length xs - nat c) xs else drop (nat (- c)) xs)"

text \<open>
  \<^verbatim>\<open>np.median\<close> of a one-dimensional array: the middle element of the sorted array, or
  the mean of the two middle elements. (Of an empty array numpy returns nan;
  \<open>median_axis0\<close> below never asks for it.)
\<close>

definition np_median :: "real list \<Rightarrow> real" where
  "np_median xs =
     (let s = sort xs; n = length xs
      in if odd n then s ! (n div 2) else (s ! (n div 2 - 1) + s ! (n div 2)) / 2)"

text \<open>
  \<^verbatim>\<open>np.median(a, axis=0)\<close> of a (samples, steps) array given as its list of rows: the
  median of every column. A tensor is rectangular; with no sample at all numpy yields
  nan entries, which real numbers do not have (the result here is then empty).
\<close>

definition median_axis0 :: "real list list \<Rightarrow> real list" where
  "median_axis0 a = map np_median (transpose a)"

text \<open>
  \<^verbatim>\<open>np.stack(results, axis=1)\<close> of one-dimensional arrays: \<^verbatim>\<open>ValueError\<close> for an empty
  list or for arrays of different lengths; else the array of shape
  (length of each, number of arrays) with \<open>pred[t][i] = results[i][t]\<close>, given as its
  list of rows.
\<close>

definition np_stack_axis1 :: "real list list \<Rightarrow> error + real list list" where
  "np_stack_axis1 results =
     (case results of
        [] \<Rightarrow> Inl ValueError
      | r # rs \<Rightarrow>
         if list_all (\<lambda>x. length x = length r) rs
         then Inr (map (\<lambda>t. map (\<lambda>x. x ! t) results) [0..<length r])
         else Inl ValueError)"

text \<open>\<^verbatim>\<open>pred.reshape(-1, 1)\<close>: the entries in row-major order, one per row.\<close>

definition reshape_col :: "real list list \<Rightarrow> real list list" where
  "reshape_col pred = map (\<lambda>v. [v]) (concat pred)"

subsection \<open>\<^verbatim>\<open>_same_index\<close> and \<^verbatim>\<open>_frame2numpy\<close>\<close>

text \<open>
  \<^verbatim>\<open>data.groupby(level=...).apply(lambda x: x.index.get_level_values(-1))\<close>: one entry
  per distinct group key, in sorted key order, holding the time points of the rows with
  that key in row order.
\<close>

definition group_times :: "('k \<times> int) list \<Rightarrow> 'k \<Rightarrow> int list" where
  "group_times ix k = map snd (filter (\<lambda>r. fst r = k) ix)"

definition groupby_times :: "('k::linorder \<times> int) list \<Rightarrow> ('k \<times> int list) list" where
  "groupby_times ix = map (\<lambda>k. (k, group_times ix k)) (np_unique (map fst ix))"

text \<open>
  The assertion compares every group's time index with the first one. A flat index has
  no \<^verbatim>\<open>levels\<close>. With no row at all the grouped result is an empty frame, and the
  truth value that \<^verbatim>\<open>assert\<close> asks of \<^verbatim>\<open>.all()\<close> is that of an empty Series, which
  pandas refuses with \<^verbatim>\<open>ValueError\<close>.
\<close>

definition same_index' :: "'k::linorder DataFrame \<Rightarrow> error + int list \<times> nat" where
  "same_index' data =
     (case index data of
        Index ts \<Rightarrow> Inl AttributeError
      | MultiIndex ix \<Rightarrow>
         (case map snd (groupby_times ix) of
            [] \<Rightarrow> Inl ValueError
          | d0 # ds \<Rightarrow>
             if list_all (\<lambda>x. x = d0) (d0 # ds) then Inr (d0, length d0)
             else Inl AssertionError))"

text \<open>
  \<^verbatim>\<open>a.reshape((-1, length, ncols))\<close> of the (rows, ncols) array of values: numpy raises
  \<^verbatim>\<open>ValueError\<close> unless the number of entries is a multiple of \<open>length * ncols\<close>
  (which must not be 0); group \<open>i\<close> is then rows \<open>i * length\<close> to
  \<open>(i + 1) * length - 1\<close>.
\<close>

definition reshape3 :: "real list list \<Rightarrow> nat \<Rightarrow> nat \<Rightarrow> error + real list list list" where
  "reshape3 rows len ncols =
     (if len * ncols = 0 \<or> (length rows * ncols) mod (len * ncols) \<noteq> 0 then Inl ValueError
      else Inr (map (\<lambda>i. take len (drop (i * len) rows)) [0..<length rows div len]))"

definition frame2numpy' :: "'k::linorder DataFrame \<Rightarrow> error + real list list list" where
  "frame2numpy' data =
     (case same_index' data of
        Inl e \<Rightarrow> Inl e
      | Inr (idx, len) \<Rightarrow> reshape3 (vals data) len (length (columns data)))"

subsection \<open>\<^verbatim>\<open>_predict\<close>\<close>

text \<open>
  Lines 162-166: the (groups, steps, columns) array. A flat frame becomes one group
  (\<^verbatim>\<open>values.reshape(1, -1, 1)\<close>: all entries in row-major order, one column).
\<close>

definition reshape_input :: "'k::linorder DataFrame \<Rightarrow> error + real list list list" where
  "reshape_input y =
     (case index y of
        MultiIndex ix \<Rightarrow> frame2numpy' y
      | Index ts \<Rightarrow> Inr [map (\<lambda>v. [v]) (concat (vals y))])"

text \<open>
  Lines 170-179, the arguments of the pipeline call for the group \<open>g\<close> (\<^verbatim>\<open>_y[i]\<close>), in
  the order Python evaluates them. \<^verbatim>\<open>_y[i, :, 0]\<close> is the first column (\<open>map hd\<close>:
  every row of the array has a column). Without a loaded pipeline,
  \<^verbatim>\<open>self.model_pipeline.model\<close> raises \<^verbatim>\<open>AttributeError\<close>.
\<close>

definition pipeline_call_args ::
  "'r ChronosForecaster \<Rightarrow> int \<Rightarrow> real list list \<Rightarrow> error + 'r ChronosPipeline \<times> pcall" where
  "pipeline_call_args self pl g =
     (let y_i = map hd g in
      case model_pipeline self of
        None \<Rightarrow> Inl AttributeError
      | Some p \<Rightarrow>
         (let y_i = slice_last (context_length p) y_i in
          case getitem (config' self) ''num_samples'' of
            Inl e \<Rightarrow> Inl e
          | Inr ns \<Rightarrow>
             (case getitem (config' self) ''temperature'' of
                Inl e \<Rightarrow> Inl e
              | Inr te \<Rightarrow>
                 (case getitem (config' self) ''top_k'' of
                    Inl e \<Rightarrow> Inl e
                  | Inr tk \<Rightarrow>
                     (case getitem (config' self) ''top_p'' of
                        Inl e \<Rightarrow> Inl e
                      | Inr tp \<Rightarrow>
                         Inr (p, \<lparr>arg_context = y_i, prediction_length = pl,
                                  num_samples = ns, temperature = te, top_k = tk,
                                  top_p = tp, limit_prediction_length = False\<rparr>))))))"

text \<open>
  Lines 170-183, one round of the loop: the call, which advances the random state and
  is appended with the pipeline's answer to \<open>predict_log\<close>, then
  \<^verbatim>\<open>np.median(prediction_results[0].numpy(), axis=0)\<close>.
\<close>

definition predict_step ::
  "'r ChronosForecaster \<Rightarrow> int \<Rightarrow> real list list \<Rightarrow> ('k, 'r) world
     \<Rightarrow> (error + real list) \<times> ('k, 'r) world" where
  "predict_step self pl g w =
     (case pipeline_call_args self pl g of
        Inl e \<Rightarrow> (Inl e, w)
      | Inr (p, c) \<Rightarrow>
         (let (r, g') = predict p (rng w) c;
              w' = w\<lparr>rng := g', predict_log := predict_log w @ [(c, r)]\<rparr>
          in case r of
               Inl e \<Rightarrow> (Inl e, w')
             | Inr prediction_results \<Rightarrow>
                (case prediction_results of
                   [] \<Rightarrow> (Inl IndexError, w')
                 | b0 # bs \<Rightarrow> (Inr (median_axis0 b0), w'))))"

text \<open>Lines 168-183: the loop over the groups; \<open>results\<close> in group order.\<close>

fun predict_loop ::
  "'r ChronosForecaster \<Rightarrow> int \<Rightarrow> real list list list \<Rightarrow> ('k, 'r) world
     \<Rightarrow> (error + real list list) \<times> ('k, 'r) world" where
  "predict_loop self pl [] w = (Inr [], w)"
| "predict_loop self pl (g # gs) w =
     (case predict_step self pl g w of
        (Inl e, w') \<Rightarrow> (Inl e, w')
      | (Inr v, w') \<Rightarrow>
         (case predict_loop self pl gs w' of
            (Inl e, w'') \<Rightarrow> (Inl e, w'')
          | (Inr vs, w'') \<Rightarrow> (Inr (v # vs), w'')))"

text \<open>
  Lines 186-207: the index of all generated rows, for \<open>P = pred.shape[0]\<close> steps and
  \<open>K = pred.shape[1]\<close> groups. For a panel: every sorted distinct key \<open>P\<close> times in a
  row, beside the \<open>P\<close> future time points \<open>K\<close> times over;
  \<^verbatim>\<open>MultiIndex.from_arrays\<close> raises \<^verbatim>\<open>ValueError\<close> on arrays of different lengths.
\<close>

definition build_index :: "'k::linorder DataFrame \<Rightarrow> int \<Rightarrow> nat \<Rightarrow> nat \<Rightarrow> error + 'k index" where
  "build_index y_df cutoff_arg P K =
     (case index y_df of
        MultiIndex ix \<Rightarrow>
         (let ins = np_repeat P (np_unique (map fst ix));
              idx = concat (replicate K (to_absolute (fh_range P) cutoff_arg))
          in if length ins = length idx then Inr (MultiIndex (zip ins idx))
             else Inl ValueError)
      | Index ts \<Rightarrow> Inr (Index (to_absolute (fh_range P) cutoff_arg)))"

text \<open>
  Lines 185-218: the table of all generated rows, cut down to the rows whose time point
  is in the requested horizon. \<^verbatim>\<open>fh.get_expected_pred_idx\<close> on \<^verbatim>\<open>None\<close> raises
  \<^verbatim>\<open>AttributeError\<close>.
\<close>

definition assemble ::
  "'r ChronosForecaster \<Rightarrow> ForecastingHorizon option \<Rightarrow> 'k::linorder DataFrame
     \<Rightarrow> real list list \<Rightarrow> error + 'k DataFrame" where
  "assemble self fh y_df results =
     (case np_stack_axis1 results of
        Inl e \<Rightarrow> Inl e
      | Inr pred \<Rightarrow>
         (case build_index y_df (cutoff self) (length pred) (length results) of
            Inl e \<Rightarrow> Inl e
          | Inr ix \<Rightarrow>
             (case fh of
                None \<Rightarrow> Inl AttributeError
              | Some f \<Rightarrow>
                 (let pred_out = get_expected_pred_idx f (cutoff self) in
                  case pd_DataFrame (reshape_col pred) ix (columns y_df) of
                    Inl e \<Rightarrow> Inl e
                  | Inr p \<Rightarrow>
                     (let dateindex =
                            map (\<lambda>x. x \<in> set pred_out) (get_level_values_last (index p));
                          p = p\<lparr>names := names y_df\<rparr>
                      in Inr (loc p dateindex))))))"

text \<open>
  Lines 151-155: the prediction length, the largest relative step of the horizon
  (\<^verbatim>\<open>int\<close> of an integer is the integer), or 1 without a horizon.
\<close>

definition compute_prediction_length ::
  "'r ChronosForecaster \<Rightarrow> ForecastingHorizon option \<Rightarrow> error + int" where
  "compute_prediction_length self fh =
     (case fh of
        Some f \<Rightarrow> py_max (to_relative f (cutoff self))
      | None \<Rightarrow> Inr 1)"

text \<open>
  \<open>set_seed\<close> is \<^verbatim>\<open>transformers.set_seed\<close>: the random state a seed stands for, or the
  error it raises (numpy refuses a seed outside 0 to 2^32 - 1 with \<^verbatim>\<open>ValueError\<close>, and
  \<^verbatim>\<open>__init__\<close> stores any integer). It raises before the random state the pipeline draws
  from is touched, so a refused seed leaves the world as it was.
  \<open>fh\<close> and \<open>y\<close> are \<^verbatim>\<open>None\<close> or a horizon and a reference to a frame.
  The result is the returned table or the error raised, with the world as the call
  leaves it. The method assigns no attribute of the object.
\<close>

definition predict' ::
  "(int \<Rightarrow> error + 'r) \<Rightarrow> 'r ChronosForecaster \<Rightarrow> ('k::linorder, 'r) world
     \<Rightarrow> ForecastingHorizon option \<Rightarrow> addr option
     \<Rightarrow> (error + 'k DataFrame) \<times> ('k, 'r) world" where
  "predict' set_seed self w fh y =
     (case set_seed (seed' self) of
        Inl e \<Rightarrow> (Inl e, w)
      | Inr seeded \<Rightarrow>
         (let w1 = w\<lparr>rng := seeded\<rparr> in
          case compute_prediction_length self fh of
            Inl e \<Rightarrow> (Inl e, w1)
          | Inr pl \<Rightarrow>
             (let (a1, w2) = copy (y' self) w1;
                  (a, w3) = (case y of Some ya \<Rightarrow> copy ya w2 | None \<Rightarrow> (a1, w2));
                  y_df = heap w3 a
              in case reshape_input y_df of
                   Inl e \<Rightarrow> (Inl e, w3)
                 | Inr arr \<Rightarrow>
                    (case predict_loop self pl arr w3 of
                       (Inl e, w4) \<Rightarrow> (Inl e, w4)
                     | (Inr results, w4) \<Rightarrow> (assemble self fh y_df results, w4)))))"

subsection \<open>Notions used to state the properties\<close>

text \<open>The frame a predict call works on: the supplied one, else the one retained.\<close>

definition source_addr :: "'r ChronosForecaster \<Rightarrow> addr option \<Rightarrow> addr" where
  "source_addr self y = (case y of Some ya \<Rightarrow> ya | None \<Rightarrow> y' self)"

text \<open>
  What the loop makes of the pipeline's answer: the error, \<^verbatim>\<open>IndexError\<close> for an empty
  batch, or the median over the samples of the first batch.
\<close>

definition answer_of :: "(error + real list list list) \<Rightarrow> error + real list" where
  "answer_of resp =
     (case resp of
        Inl e \<Rightarrow> Inl e
      | Inr [] \<Rightarrow> Inl IndexError
      | Inr (b0 # bs) \<Rightarrow> Inr (median_axis0 b0))"

text \<open>
  A median of a list of numbers: at least half of the entries are at most \<open>m\<close> and at
  least half are at least \<open>m\<close>.
\<close>

definition is_median :: "real \<Rightarrow> real list \<Rightarrow> bool" where
  "is_median m xs \<longleftrightarrow>
     length xs \<le> 2 * length (filter (\<lambda>x. x \<le> m) xs) \<and>
     length xs \<le> 2 * length (filter (\<lambda>x. m \<le> x) xs)"

text \<open>The last \<open>n\<close> entries of a list: its most recent \<open>n\<close> steps.\<close>

definition most_recent :: "nat \<Rightarrow> 'a list \<Rightarrow> 'a list" where
  "most_recent n xs = drop (length xs - n) xs"

subsection \<open>A concrete instance\<close>

text \<open>
  A pipeline with context length 2 that answers with one batch of three sampled
  trajectories, which depend on the last value of the history and on the random state,
  and advances the random state.
\<close>

definition ex_pipe :: "int ChronosPipeline" where
  "ex_pipe =
     \<lparr>context_length = 2,
      predict = (\<lambda>g c.
        (Inr [map (\<lambda>j. map (\<lambda>k. last (arg_context c) + of_int (k * (g + j)))
                          [1..prediction_length c])
                [2, 0, 1]],
         g + 1))\<rparr>"

definition ex_blank :: "int ChronosForecaster" where
  "ex_blank =
     \<lparr>seed = None, seed' = 0, config = None, config' = Map.empty, model_path = [],
      model_pipeline = None, context_attr = None, y' = 0, cutoff = 2\<rparr>"

definition ex_self :: "int ChronosForecaster" where
  "ex_self =
     (init (TorchDtype ''bfloat16'') 7 ex_blank ''amazon/chronos-t5-tiny''
        (Some [''num_samples'' \<mapsto> PyInt 3]) (Some 42))
     \<lparr>model_pipeline := Some ex_pipe\<rparr>"

definition ex_panel :: "nat DataFrame" where
  "ex_panel =
     \<lparr>index = MultiIndex [(1, 0), (1, 1), (1, 2), (2, 0), (2, 1), (2, 2)],
      names = [''id'', ''t''], columns = [''y''],
      vals = [[1], [2], [3], [10], [20], [30]]\<rparr>"

definition ex_ragged :: "nat DataFrame" where
  "ex_ragged =
     \<lparr>index = MultiIndex [(1, 0), (1, 1), (1, 2), (2, 1), (2, 2)],
      names = [''id'', ''t''], columns = [''y''],
      vals = [[1], [2], [3], [20], [30]]\<rparr>"

definition ex_flat :: "nat DataFrame" where
  "ex_flat =
     \<lparr>index = Index [0, 1, 2], names = [''t''], columns = [''y''],
      vals = [[112], [118], [132]]\<rparr>"

text \<open>The retained series (address 0) is the panel.\<close>

definition ex_world :: "(nat, int) world" where
  "ex_world =
     \<lparr>heap = (\<lambda>a. if a = 0 then ex_panel else if a = 1 then ex_flat else ex_ragged),
      next_addr = 3, rng = 0, predict_log = [], load_log = []\<rparr>"

text \<open>
  Seeding as \<^verbatim>\<open>transformers.set_seed\<close> does it: a seed from 0 to 2^32 - 1 is the random
  state, any other seed is refused.
\<close>

definition ex_set_seed :: "int \<Rightarrow> error + int" where
  "ex_set_seed s = (if 0 \<le> s \<and> s < 2 ^ 32 then Inr s else Inl ValueError)"

definition ex_fh :: ForecastingHorizon where
  "ex_fh = \<lparr>fh_values = [1, 2], is_relative = True\<rparr>"

text \<open>A loader that knows one model, and a forecaster that was never fitted.\<close>

definition ex_loader :: "string \<Rightarrow> cfg_value \<Rightarrow> cfg_value \<Rightarrow> error + int ChronosPipeline" where
  "ex_loader path dt dm =
     (if path = ''amazon/chronos-t5-tiny'' then Inr ex_pipe else Inl (ExternalError path))"

definition ex_new :: "int ChronosForecaster" where
  "ex_new = init (TorchDtype ''bfloat16'') 7 ex_blank ''amazon/chronos-t5-tiny'' None None"

text \<open>An absolute horizon, given out of order: the time points 4 and 3.\<close>

definition ex_fh_abs :: ForecastingHorizon where
  "ex_fh_abs = \<lparr>fh_values = [4, 3], is_relative = False\<rparr>"

section \<open>Properties\<close>

subsection \<open>Initialisation and fit\<close>

lemma fit'_loaded:
  "model_pipeline self \<noteq> None \<Longrightarrow> fit' from_pretrained self w = (Inr (), self, w)"
  by (auto simp: fit'_def)

lemma fit'_attrs:
  "seed' (fst (snd (fit' from_pretrained self w))) = seed' self \<and>
   config' (fst (snd (fit' from_pretrained self w))) = config' self"
  by (simp add: fit'_def Let_def split: option.splits sum.splits)

text \<open>
  Claim C9. After \<^verbatim>\<open>__init__\<close> the effective configuration gives every key the caller
  supplied the caller's value and every other key its default, the defaults of the seven
  documented keys being as listed; the stored seed is the caller's seed when one is
  given, else the drawn integer, and a fit leaves it as it is. (\<open>predict'\<close> returns no
  object: \<^verbatim>\<open>_predict\<close> assigns no attribute, so the seed is the same at every predict.)
\<close>

theorem init_config_and_seed:
  "config' (init bfloat16 drawn self path cfg sd) k =
     (case (case cfg of Some c \<Rightarrow> c | None \<Rightarrow> Map.empty) k of
        Some v \<Rightarrow> Some v
      | None \<Rightarrow> default_config' bfloat16 k) \<and>
   default_config' bfloat16 ''num_samples'' = Some PyNone \<and>
   default_config' bfloat16 ''temperature'' = Some PyNone \<and>
   default_config' bfloat16 ''top_k'' = Some PyNone \<and>
   default_config' bfloat16 ''top_p'' = Some PyNone \<and>
   default_config' bfloat16 ''limit_prediction_length'' = Some (PyBool False) \<and>
   default_config' bfloat16 ''torch_dtype'' = Some bfloat16 \<and>
   default_config' bfloat16 ''device_map'' = Some (PyStr ''cpu'') \<and>
   seed' (init bfloat16 drawn self path cfg sd) = (case sd of Some s \<Rightarrow> s | None \<Rightarrow> drawn) \<and>
   seed' (fst (snd (fit' from_pretrained (init bfloat16 drawn self path cfg sd) w))) =
     (case sd of Some s \<Rightarrow> s | None \<Rightarrow> drawn)"
proof -
  have "config' (init bfloat16 drawn self path cfg sd) k =
     (case (case cfg of Some c \<Rightarrow> c | None \<Rightarrow> Map.empty) k of
        Some v \<Rightarrow> Some v
      | None \<Rightarrow> default_config' bfloat16 k)"
    by (simp add: init_def map_add_def split: option.splits)
  moreover have "default_config' bfloat16 ''num_samples'' = Some PyNone"
    "default_config' bfloat16 ''temperature'' = Some PyNone"
    "default_config' bfloat16 ''top_k'' = Some PyNone"
    "default_config' bfloat16 ''top_p'' = Some PyNone"
    "default_config' bfloat16 ''limit_prediction_length'' = Some (PyBool False)"
    "default_config' bfloat16 ''torch_dtype'' = Some bfloat16"
    "default_config' bfloat16 ''device_map'' = Some (PyStr ''cpu'')"
    by (simp_all add: default_config'_def)
  moreover have s: "seed' (init bfloat16 drawn self path cfg sd) =
      (case sd of Some s \<Rightarrow> s | None \<Rightarrow> drawn)"
    by (simp add: init_def split: option.splits)
  moreover have "seed' (fst (snd (fit' from_pretrained (init bfloat16 drawn self path cfg sd) w))) =
     (case sd of Some s \<Rightarrow> s | None \<Rightarrow> drawn)"
    using fit'_attrs [of from_pretrained "init bfloat16 drawn self path cfg sd" w] s by simp
  ultimately show ?thesis by blast
qed

text \<open>
  Claim C8. A fit that finds no pipeline loaded calls the loader once, with the stored
  model identifier and the configured precision and device placement, and keeps the
  pipeline; any number of further fits on the object changes neither the object nor the
  log of loader calls.
\<close>

theorem fit_loads_once:
  fixes w :: "('k, 'r) world"
  assumes "model_pipeline self = None"
    and "config' self ''torch_dtype'' = Some dt"
    and "config' self ''device_map'' = Some dm"
    and "from_pretrained (model_path self) dt dm = Inr p"
  shows "fit' from_pretrained self w =
           (Inr (), self\<lparr>model_pipeline := Some p\<rparr>,
            w\<lparr>load_log := load_log w @ [(model_path self, dt, dm)]\<rparr>) \<and>
         (\<forall>n. ((\<lambda>(r, s, v). fit' from_pretrained s v) ^^ n) (fit' from_pretrained self w) =
                fit' from_pretrained self w)"
proof -
  let ?s = "self\<lparr>model_pipeline := Some p\<rparr>"
  let ?w = "w\<lparr>load_log := load_log w @ [(model_path self, dt, dm)]\<rparr>"
  have first: "fit' from_pretrained self w = (Inr (), ?s, ?w)"
    using assms by (simp add: fit'_def getitem_def)
  have again: "fit' from_pretrained ?s ?w = (Inr (), ?s, ?w)"
    by (rule fit'_loaded) simp
  define F where "F = (\<lambda>(r :: error + unit, s, v :: ('k, 'r) world). fit' from_pretrained s v)"
  have fx: "F (Inr (), ?s, ?w) = (Inr (), ?s, ?w)"
    by (simp add: F_def again)
  have "(F ^^ n) (Inr (), ?s, ?w) = (Inr (), ?s, ?w)" for n
    by (induction n) (simp_all add: fx)
  with first show ?thesis by (simp add: F_def)
qed

theorem fit_loads_once_witness:
  "model_pipeline ex_new = None \<and>
   config' ex_new ''torch_dtype'' = Some (TorchDtype ''bfloat16'') \<and>
   config' ex_new ''device_map'' = Some (PyStr ''cpu'') \<and>
   ex_loader (model_path ex_new) (TorchDtype ''bfloat16'') (PyStr ''cpu'') = Inr ex_pipe \<and>
   fit' ex_loader ex_new (ex_world :: (nat, int) world) =
     (Inr (), ex_new\<lparr>model_pipeline := Some ex_pipe\<rparr>,
      ex_world\<lparr>load_log := [(''amazon/chronos-t5-tiny'', TorchDtype ''bfloat16'', PyStr ''cpu'')]\<rparr>) \<and>
   ((\<lambda>(r, s, v). fit' ex_loader s v) ^^ 3) (fit' ex_loader ex_new (ex_world :: (nat, int) world)) =
     (Inr (), ex_new\<lparr>model_pipeline := Some ex_pipe\<rparr>,
      ex_world\<lparr>load_log := [(''amazon/chronos-t5-tiny'', TorchDtype ''bfloat16'', PyStr ''cpu'')]\<rparr>)"
proof -
  have h1: "model_pipeline ex_new = None"
    by (simp add: ex_new_def init_def)
  have h2: "config' ex_new ''torch_dtype'' = Some (TorchDtype ''bfloat16'')"
    by (simp add: ex_new_def init_def default_config'_def)
  have h3: "config' ex_new ''device_map'' = Some (PyStr ''cpu'')"
    by (simp add: ex_new_def init_def default_config'_def)
  have h4: "ex_loader (model_path ex_new) (TorchDtype ''bfloat16'') (PyStr ''cpu'') = Inr ex_pipe"
    by (simp add: ex_new_def init_def ex_loader_def)
  have mp: "model_path ex_new = ''amazon/chronos-t5-tiny''"
    by (simp add: ex_new_def init_def)
  have lg: "load_log (ex_world :: (nat, int) world) = []"
    by (simp add: ex_world_def)
  note th = fit_loads_once [of ex_new "TorchDtype ''bfloat16''" "PyStr ''cpu''" ex_loader ex_pipe
      "ex_world :: (nat, int) world", OF h1 h2 h3 h4]
  from th have a: "fit' ex_loader ex_new (ex_world :: (nat, int) world) =
     (Inr (), ex_new\<lparr>model_pipeline := Some ex_pipe\<rparr>,
      ex_world\<lparr>load_log := [(''amazon/chronos-t5-tiny'', TorchDtype ''bfloat16'', PyStr ''cpu'')]\<rparr>)"
    by (simp add: mp lg)
  from th have b: "((\<lambda>(r, s, v). fit' ex_loader s v) ^^ 3)
      (fit' ex_loader ex_new (ex_world :: (nat, int) world)) =
      fit' ex_loader ex_new (ex_world :: (nat, int) world)"
    by blast
  from b a have c: "((\<lambda>(r, s, v). fit' ex_loader s v) ^^ 3)
      (fit' ex_loader ex_new (ex_world :: (nat, int) world)) =
     (Inr (), ex_new\<lparr>model_pipeline := Some ex_pipe\<rparr>,
      ex_world\<lparr>load_log := [(''amazon/chronos-t5-tiny'', TorchDtype ''bfloat16'', PyStr ''cpu'')]\<rparr>)"
    by (rule trans)
  from h1 h2 h3 h4 a c show ?thesis by blast
qed

subsection \<open>Facts about one round and about the loop\<close>

lemma pipeline_call_args_Inr:
  assumes "pipeline_call_args self pl g = Inr (p, c)"
  shows "model_pipeline self = Some p \<and>
         arg_context c = slice_last (context_length p) (map hd g) \<and>
         prediction_length c = pl \<and>
         config' self ''num_samples'' = Some (num_samples c) \<and>
         config' self ''temperature'' = Some (temperature c) \<and>
         config' self ''top_k'' = Some (top_k c) \<and>
         config' self ''top_p'' = Some (top_p c) \<and>
         limit_prediction_length c = False"
proof (cases "model_pipeline self")
  case None
  with assms show ?thesis by (simp add: pipeline_call_args_def)
next
  case (Some q)
  show ?thesis
  proof (cases "config' self ''num_samples''")
    case None
    with assms Some show ?thesis by (simp add: pipeline_call_args_def getitem_def)
  next
    case ns: (Some ns)
    show ?thesis
    proof (cases "config' self ''temperature''")
      case None
      with assms Some ns show ?thesis by (simp add: pipeline_call_args_def getitem_def)
    next
      case te: (Some te)
      show ?thesis
      proof (cases "config' self ''top_k''")
        case None
        with assms Some ns te show ?thesis by (simp add: pipeline_call_args_def getitem_def)
      next
        case tk: (Some tk)
        show ?thesis
        proof (cases "config' self ''top_p''")
          case None
          with assms Some ns te tk show ?thesis
            by (simp add: pipeline_call_args_def getitem_def)
        next
          case tp: (Some tp)
          with assms Some ns te tk show ?thesis
            by (auto simp: pipeline_call_args_def getitem_def)
        qed
      qed
    qed
  qed
qed

lemma pipeline_call_args_ok:
  assumes "model_pipeline self = Some p"
    and "config' self ''num_samples'' = Some ns"
    and "config' self ''temperature'' = Some te"
    and "config' self ''top_k'' = Some tk"
    and "config' self ''top_p'' = Some tp"
  shows "pipeline_call_args self pl g =
     Inr (p, \<lparr>arg_context = slice_last (context_length p) (map hd g), prediction_length = pl,
              num_samples = ns, temperature = te, top_k = tk, top_p = tp,
              limit_prediction_length = False\<rparr>)"
  using assms by (simp add: pipeline_call_args_def getitem_def)

lemma predict_step_Inl:
  "pipeline_call_args self pl g = Inl e \<Longrightarrow> predict_step self pl g w = (Inl e, w)"
  by (simp add: predict_step_def)

lemma predict_step_Inr:
  assumes "pipeline_call_args self pl g = Inr (p, c)"
    and "predict p (rng w) c = (resp, g')"
  shows "predict_step self pl g w =
     (answer_of resp, w\<lparr>rng := g', predict_log := predict_log w @ [(c, resp)]\<rparr>)"
  using assms by (simp add: predict_step_def answer_of_def split: sum.splits list.splits)

lemma predict_step_rng:
  assumes "rng w = rng v"
  shows "fst (predict_step self pl g w) = fst (predict_step self pl g v) \<and>
         rng (snd (predict_step self pl g w)) = rng (snd (predict_step self pl g v))"
proof (cases "pipeline_call_args self pl g")
  case (Inl e)
  with assms show ?thesis by (simp add: predict_step_Inl)
next
  case (Inr pc)
  obtain p c where pc: "pc = (p, c)" by (cases pc)
  obtain resp g' where pr: "predict p (rng w) c = (resp, g')"
    by (cases "predict p (rng w) c")
  with assms have pr': "predict p (rng v) c = (resp, g')" by simp
  show ?thesis
    using predict_step_Inr [of self pl g p c w resp g'] predict_step_Inr [of self pl g p c v resp g']
      Inr pc pr pr' by simp
qed

lemma predict_loop_rng:
  assumes "rng w = rng v"
  shows "fst (predict_loop self pl gs w) = fst (predict_loop self pl gs v) \<and>
         rng (snd (predict_loop self pl gs w)) = rng (snd (predict_loop self pl gs v))"
  using assms
proof (induction gs arbitrary: w v)
  case Nil
  then show ?case by simp
next
  case (Cons g gs)
  obtain r1 w1 where sw: "predict_step self pl g w = (r1, w1)"
    by (cases "predict_step self pl g w")
  obtain r2 v1 where sv: "predict_step self pl g v = (r2, v1)"
    by (cases "predict_step self pl g v")
  from predict_step_rng [OF Cons.prems, of self pl g] sw sv
  have eq: "r1 = r2" "rng w1 = rng v1" by simp_all
  show ?case
  proof (cases r1)
    case (Inl e)
    with eq have "r2 = Inl e" by simp
    with sw sv Inl eq show ?thesis by simp
  next
    case (Inr x)
    with eq have r2: "r2 = Inr x" by simp
    obtain r3 w2 where lw: "predict_loop self pl gs w1 = (r3, w2)"
      by (cases "predict_loop self pl gs w1")
    obtain r4 v2 where lv: "predict_loop self pl gs v1 = (r4, v2)"
      by (cases "predict_loop self pl gs v1")
    from Cons.IH [OF eq(2)] lw lv have "r3 = r4" "rng w2 = rng v2" by simp_all
    with sw sv eq(2) Inr r2 lw lv show ?thesis by (simp split: sum.splits)
  qed
qed

lemma predict_loop_log:
  assumes "predict_loop self pl gs w = (r, w')"
  shows "heap w' = heap w \<and> next_addr w' = next_addr w \<and> load_log w' = load_log w \<and>
    (\<exists>new. predict_log w' = predict_log w @ new \<and> length new \<le> length gs \<and>
       list_all2 (\<lambda>g e. \<exists>p. pipeline_call_args self pl g = Inr (p, fst e))
         (take (length new) gs) new \<and>
       (\<forall>results. r = Inr results \<longrightarrow>
          length new = length gs \<and>
          list_all2 (\<lambda>e v. answer_of (snd e) = Inr v) new results))"
  using assms
proof (induction gs arbitrary: w r w')
  case Nil
  then show ?case by auto
next
  case (Cons g gs)
  show ?case
  proof (cases "pipeline_call_args self pl g")
    case (Inl e)
    with Cons.prems have "r = Inl e" "w' = w" by (simp_all add: predict_step_Inl)
    then show ?thesis by simp
  next
    case (Inr pc)
    obtain p c where pc: "pc = (p, c)" by (cases pc)
    obtain resp g' where pr: "predict p (rng w) c = (resp, g')"
      by (cases "predict p (rng w) c")
    define w1 where "w1 = w\<lparr>rng := g', predict_log := predict_log w @ [(c, resp)]\<rparr>"
    have st: "predict_step self pl g w = (answer_of resp, w1)"
      using predict_step_Inr [of self pl g p c w resp g'] Inr pc pr by (simp add: w1_def)
    have w1: "heap w1 = heap w" "next_addr w1 = next_addr w" "load_log w1 = load_log w"
      "predict_log w1 = predict_log w @ [(c, resp)]"
      by (simp_all add: w1_def)
    show ?thesis
    proof (cases "answer_of resp")
      case (Inl e)
      with Cons.prems st have "r = Inl e" "w' = w1" by simp_all
      with w1 Inr pc show ?thesis by auto
    next
      case v: (Inr v)
      obtain r2 w2 where lp: "predict_loop self pl gs w1 = (r2, w2)"
        by (cases "predict_loop self pl gs w1")
      from Cons.IH [OF lp] obtain new where
        n: "predict_log w2 = predict_log w1 @ new" "length new \<le> length gs"
           "list_all2 (\<lambda>g e. \<exists>p. pipeline_call_args self pl g = Inr (p, fst e))
              (take (length new) gs) new"
           "\<forall>results. r2 = Inr results \<longrightarrow> length new = length gs \<and>
              list_all2 (\<lambda>e v. answer_of (snd e) = Inr v) new results"
        and fr: "heap w2 = heap w1" "next_addr w2 = next_addr w1" "load_log w2 = load_log w1"
        by blast
      from Cons.prems st v lp have rw: "w' = w2"
        "r = (case r2 of Inl e \<Rightarrow> Inl e | Inr vs \<Rightarrow> Inr (v # vs))"
        by (auto split: sum.splits)
      have "predict_log w' = predict_log w @ ((c, resp) # new)"
        using rw n w1 by simp
      moreover have "length ((c, resp) # new) \<le> length (g # gs)" using n by simp
      moreover have "list_all2 (\<lambda>g e. \<exists>p. pipeline_call_args self pl g = Inr (p, fst e))
          (take (length ((c, resp) # new)) (g # gs)) ((c, resp) # new)"
        using n Inr pc by simp
      moreover have "\<forall>results. r = Inr results \<longrightarrow>
          length ((c, resp) # new) = length (g # gs) \<and>
          list_all2 (\<lambda>e v. answer_of (snd e) = Inr v) ((c, resp) # new) results"
        using rw n v by (auto split: sum.splits)
      moreover have "heap w' = heap w \<and> next_addr w' = next_addr w \<and> load_log w' = load_log w"
        using rw fr w1 by simp
      ultimately show ?thesis by blast
    qed
  qed
qed

subsection \<open>The structure of a predict call\<close>

lemma predict'_refused:
  "set_seed (seed' self) = Inl e \<Longrightarrow> predict' set_seed self w fh y = (Inl e, w)"
  by (simp add: predict'_def)

lemma ex_refused_seed:
  "fst (predict' ex_set_seed (ex_self\<lparr>seed' := - 1\<rparr>) ex_world (Some ex_fh) (Some 1)) =
     Inl ValueError"
  by (simp add: predict'_refused ex_set_seed_def)

lemma predict'_unfold:
  fixes w :: "('k::linorder, 'r) world"
  assumes seeded: "set_seed (seed' self) = Inr g"
  shows "\<exists>(w3 :: ('k, 'r) world) y_df.
     (source_addr self y < next_addr w \<longrightarrow> y_df = heap w (source_addr self y)) \<and>
     rng w3 = g \<and> predict_log w3 = predict_log w \<and>
     load_log w3 = load_log w \<and> next_addr w \<le> next_addr w3 \<and>
     (\<forall>a<next_addr w. heap w3 a = heap w a) \<and>
     predict' set_seed self w fh y =
       (case compute_prediction_length self fh of
          Inl e \<Rightarrow> (Inl e, w\<lparr>rng := g\<rparr>)
        | Inr pl \<Rightarrow>
           (case reshape_input y_df of
              Inl e \<Rightarrow> (Inl e, w3)
            | Inr arr \<Rightarrow>
               (case predict_loop self pl arr w3 of
                  (Inl e, w4) \<Rightarrow> (Inl e, w4)
                | (Inr results, w4) \<Rightarrow> (assemble self fh y_df results, w4))))"
proof (cases y)
  case None
  define w3 :: "('k, 'r) world" where
    "w3 = w\<lparr>rng := g,
             heap := (heap w)(next_addr w := heap w (y' self)),
             next_addr := Suc (next_addr w)\<rparr>"
  define y_df where "y_df = heap w (y' self)"
  have "predict' set_seed self w fh y =
       (case compute_prediction_length self fh of
          Inl e \<Rightarrow> (Inl e, w\<lparr>rng := g\<rparr>)
        | Inr pl \<Rightarrow>
           (case reshape_input y_df of
              Inl e \<Rightarrow> (Inl e, w3)
            | Inr arr \<Rightarrow>
               (case predict_loop self pl arr w3 of
                  (Inl e, w4) \<Rightarrow> (Inl e, w4)
                | (Inr results, w4) \<Rightarrow> (assemble self fh y_df results, w4))))"
    using None seeded
    by (simp add: predict'_def copy_def w3_def y_df_def Let_def
        split: sum.splits prod.splits)
  moreover have "source_addr self y < next_addr w \<longrightarrow> y_df = heap w (source_addr self y)"
    using None by (simp add: source_addr_def y_df_def)
  moreover have "rng w3 = g" "predict_log w3 = predict_log w"
    "load_log w3 = load_log w" "next_addr w \<le> next_addr w3"
    "\<forall>a<next_addr w. heap w3 a = heap w a"
    by (simp_all add: w3_def)
  ultimately show ?thesis by blast
next
  case (Some ya)
  define w3 :: "('k, 'r) world" where
    "w3 = w\<lparr>rng := g,
             heap := (heap w)(next_addr w := heap w (y' self),
                              Suc (next_addr w) := ((heap w)(next_addr w := heap w (y' self))) ya),
             next_addr := Suc (Suc (next_addr w))\<rparr>"
  define y_df where "y_df = ((heap w)(next_addr w := heap w (y' self))) ya"
  have "predict' set_seed self w fh y =
       (case compute_prediction_length self fh of
          Inl e \<Rightarrow> (Inl e, w\<lparr>rng := g\<rparr>)
        | Inr pl \<Rightarrow>
           (case reshape_input y_df of
              Inl e \<Rightarrow> (Inl e, w3)
            | Inr arr \<Rightarrow>
               (case predict_loop self pl arr w3 of
                  (Inl e, w4) \<Rightarrow> (Inl e, w4)
                | (Inr results, w4) \<Rightarrow> (assemble self fh y_df results, w4))))"
    using Some seeded
    by (simp add: predict'_def copy_def w3_def y_df_def Let_def
        split: sum.splits prod.splits)
  moreover have "source_addr self y < next_addr w \<longrightarrow> y_df = heap w (source_addr self y)"
    using Some by (simp add: source_addr_def y_df_def)
  moreover have "rng w3 = g" "predict_log w3 = predict_log w"
    "load_log w3 = load_log w" "next_addr w \<le> next_addr w3"
    "\<forall>a<next_addr w. heap w3 a = heap w a"
    by (simp_all add: w3_def)
  ultimately show ?thesis by blast
qed

lemma predict'_log:
  fixes w :: "('k::linorder, 'r) world"
  assumes seeded: "set_seed (seed' self) = Inr g"
  shows "\<exists>y_df new.
     (source_addr self y < next_addr w \<longrightarrow> y_df = heap w (source_addr self y)) \<and>
     (\<forall>a<next_addr w. heap (snd (predict' set_seed self w fh y)) a = heap w a) \<and>
     next_addr w \<le> next_addr (snd (predict' set_seed self w fh y)) \<and>
     load_log (snd (predict' set_seed self w fh y)) = load_log w \<and>
     predict_log (snd (predict' set_seed self w fh y)) = predict_log w @ new \<and>
     (case compute_prediction_length self fh of
        Inl e \<Rightarrow> new = [] \<and> fst (predict' set_seed self w fh y) = Inl e
      | Inr pl \<Rightarrow>
         (case reshape_input y_df of
            Inl e \<Rightarrow> new = [] \<and> fst (predict' set_seed self w fh y) = Inl e
          | Inr arr \<Rightarrow>
             length new \<le> length arr \<and>
             list_all2 (\<lambda>g e. \<exists>p. pipeline_call_args self pl g = Inr (p, fst e))
               (take (length new) arr) new \<and>
             (\<forall>tab. fst (predict' set_seed self w fh y) = Inr tab \<longrightarrow>
                length new = length arr)))"
proof -
  from predict'_unfold
    [where set_seed = set_seed and self = self and y = y and w = w and fh = fh,
     OF seeded]
  obtain w3 :: "('k, 'r) world" and y_df where
    yd: "source_addr self y < next_addr w \<longrightarrow> y_df = heap w (source_addr self y)"
    and w3: "rng w3 = g" "predict_log w3 = predict_log w"
      "load_log w3 = load_log w" "next_addr w \<le> next_addr w3"
      "\<forall>a<next_addr w. heap w3 a = heap w a"
    and un: "predict' set_seed self w fh y =
       (case compute_prediction_length self fh of
          Inl e \<Rightarrow> (Inl e, w\<lparr>rng := g\<rparr>)
        | Inr pl \<Rightarrow>
           (case reshape_input y_df of
              Inl e \<Rightarrow> (Inl e, w3)
            | Inr arr \<Rightarrow>
               (case predict_loop self pl arr w3 of
                  (Inl e, w4) \<Rightarrow> (Inl e, w4)
                | (Inr results, w4) \<Rightarrow> (assemble self fh y_df results, w4))))"
    by blast
  show ?thesis
  proof (cases "compute_prediction_length self fh")
    case (Inl e)
    with un have "predict' set_seed self w fh y = (Inl e, w\<lparr>rng := g\<rparr>)"
      by simp
    with Inl yd show ?thesis by (intro exI [of _ y_df] exI [of _ "[]"]) simp
  next
    case pl: (Inr pl)
    show ?thesis
    proof (cases "reshape_input y_df")
      case (Inl e)
      with un pl have "predict' set_seed self w fh y = (Inl e, w3)" by simp
      with Inl pl yd w3 show ?thesis by (intro exI [of _ y_df] exI [of _ "[]"]) simp
    next
      case arr: (Inr arr)
      obtain rl w4 where lp: "predict_loop self pl arr w3 = (rl, w4)"
        by (cases "predict_loop self pl arr w3")
      from predict_loop_log [OF lp] obtain new where
        fr: "heap w4 = heap w3" "next_addr w4 = next_addr w3" "load_log w4 = load_log w3"
        and n: "predict_log w4 = predict_log w3 @ new" "length new \<le> length arr"
          "list_all2 (\<lambda>g e. \<exists>p. pipeline_call_args self pl g = Inr (p, fst e))
             (take (length new) arr) new"
          "\<forall>results. rl = Inr results \<longrightarrow> length new = length arr \<and>
             list_all2 (\<lambda>e v. answer_of (snd e) = Inr v) new results"
        by blast
      from un pl arr lp have R: "predict' set_seed self w fh y =
          (case rl of Inl e \<Rightarrow> Inl e | Inr results \<Rightarrow> assemble self fh y_df results, w4)"
        by (simp split: sum.splits)
      have "\<forall>tab. fst (predict' set_seed self w fh y) = Inr tab \<longrightarrow> length new = length arr"
        using R n(4) by (auto split: sum.splits)
      with R pl arr yd w3 fr n(1-3) show ?thesis
        by (intro exI [of _ y_df] exI [of _ new]) simp
    qed
  qed
qed

lemma predict'_frame:
  fixes w :: "('k::linorder, 'r) world"
  shows "(\<forall>a<next_addr w. heap (snd (predict' set_seed self w fh y)) a = heap w a) \<and>
     next_addr w \<le> next_addr (snd (predict' set_seed self w fh y)) \<and>
     load_log (snd (predict' set_seed self w fh y)) = load_log w"
proof (cases "set_seed (seed' self)")
  case (Inl e)
  then show ?thesis by (simp add: predict'_refused)
next
  case (Inr g)
  from predict'_log
    [where set_seed = set_seed and self = self and y = y and w = w and fh = fh,
     OF Inr] show ?thesis by blast
qed



lemma ex_seeded: "ex_set_seed (seed' ex_self) = Inr 42"
  by (simp add: ex_set_seed_def ex_self_def init_def)

lemma ex_src_None: "source_addr ex_self None < next_addr (ex_world :: (nat, int) world)"
  by (simp add: source_addr_def ex_world_def ex_self_def ex_blank_def init_def)

lemma ex_panel_table:
  "fst (predict' ex_set_seed ex_self ex_world (Some ex_fh) None) =
     Inr \<lparr>index = MultiIndex [(1, 3), (1, 4), (2, 3), (2, 4)], names = [''id'', ''t''],
          columns = [''y''], vals = [[46], [74], [89], [118]]\<rparr>"
  by code_simp

lemma ex_panel_log_length:
  "length (predict_log (snd (predict' ex_set_seed ex_self ex_world (Some ex_fh) None))) = 2"
  by code_simp

subsection \<open>The prediction length\<close>



subsection \<open>The series are left as they are\<close>

text \<open>
  Claim C10. A predict call changes no frame that existed before it: it works on
  copies, which are new frames, so the series retained at fit time and a series supplied
  by the caller hold after the call what they held before. (The object itself is not
  changed either: \<open>predict'\<close> returns none.)
\<close>

theorem predict_leaves_frames_unchanged:
  fixes w :: "('k::linorder, 'r) world"
  assumes "a < next_addr w"
  shows "heap (snd (predict' set_seed self w fh y)) a = heap w a"
  using predict'_frame [of w set_seed self fh y] assms by blast

theorem predict_leaves_frames_unchanged_witness:
  "0 < next_addr (ex_world :: (nat, int) world) \<and>
   heap (snd (predict' ex_set_seed ex_self ex_world (Some ex_fh) (Some 1))) 0 = heap ex_world 0"
proof -
  have h: "0 < next_addr (ex_world :: (nat, int) world)" by (simp add: ex_world_def)
  from predict_leaves_frames_unchanged
      [where set_seed = ex_set_seed and self = ex_self and fh = "Some ex_fh" and y = "Some 1", OF h] h
  show ?thesis by simp
qed

subsection \<open>Reproducibility\<close>

lemma predict'_fst_cong:
  fixes w v :: "('k::linorder, 'r) world"
  assumes "source_addr self y < next_addr w" "source_addr self y < next_addr v"
    and "heap w (source_addr self y) = heap v (source_addr self y)"
  shows "fst (predict' set_seed self w fh y) = fst (predict' set_seed self v fh y)"
proof (cases "set_seed (seed' self)")
  case (Inl e)
  then show ?thesis by (simp add: predict'_refused)
next
  case seeded: (Inr g)
  define y_df where "y_df = heap v (source_addr self y)"
  from predict'_unfold
    [where set_seed = set_seed and self = self and y = y and w = w and fh = fh,
     OF seeded] assms(1,3)
  obtain w3 :: "('k, 'r) world" where
    w3: "rng w3 = g"
    and unw: "predict' set_seed self w fh y =
       (case compute_prediction_length self fh of
          Inl e \<Rightarrow> (Inl e, w\<lparr>rng := g\<rparr>)
        | Inr pl \<Rightarrow>
           (case reshape_input y_df of
              Inl e \<Rightarrow> (Inl e, w3)
            | Inr arr \<Rightarrow>
               (case predict_loop self pl arr w3 of
                  (Inl e, w4) \<Rightarrow> (Inl e, w4)
                | (Inr results, w4) \<Rightarrow> (assemble self fh y_df results, w4))))"
    unfolding y_df_def by auto
  from predict'_unfold
    [where set_seed = set_seed and self = self and y = y and w = v and fh = fh,
     OF seeded] assms(2)
  obtain v3 :: "('k, 'r) world" where
    v3: "rng v3 = g"
    and unv: "predict' set_seed self v fh y =
       (case compute_prediction_length self fh of
          Inl e \<Rightarrow> (Inl e, v\<lparr>rng := g\<rparr>)
        | Inr pl \<Rightarrow>
           (case reshape_input y_df of
              Inl e \<Rightarrow> (Inl e, v3)
            | Inr arr \<Rightarrow>
               (case predict_loop self pl arr v3 of
                  (Inl e, w4) \<Rightarrow> (Inl e, w4)
                | (Inr results, w4) \<Rightarrow> (assemble self fh y_df results, w4))))"
    unfolding y_df_def by auto
  show ?thesis
  proof (cases "compute_prediction_length self fh")
    case (Inl e)
    with unw unv show ?thesis by simp
  next
    case pl: (Inr pl)
    show ?thesis
    proof (cases "reshape_input y_df")
      case (Inl e)
      with unw unv pl show ?thesis by simp
    next
      case arr: (Inr arr)
      obtain r1 w4 where lw: "predict_loop self pl arr w3 = (r1, w4)"
        by (cases "predict_loop self pl arr w3")
      obtain r2 v4 where lv: "predict_loop self pl arr v3 = (r2, v4)"
        by (cases "predict_loop self pl arr v3")
      from predict_loop_rng [of w3 v3 self pl arr] w3 v3 lw lv have "r1 = r2" by simp
      with unw unv pl arr lw lv show ?thesis by (simp split: sum.splits)
    qed
  qed
qed

text \<open>
  Claim C7. A predict call repeated on the same object with the same horizon and the same
  series returns what the first call returned, whatever the random state is when the
  second call starts: the call seeds the random state from the stored seed, and the
  pipeline's answers are a function of the random state and of the call.
\<close>

theorem predict_reproducible:
  fixes w :: "('k::linorder, 'r) world"
  assumes "source_addr self y < next_addr w"
  shows "fst (predict' set_seed self (snd (predict' set_seed self w fh y)\<lparr>rng := g\<rparr>) fh y) =
         fst (predict' set_seed self w fh y)"
proof -
  let ?v = "snd (predict' set_seed self w fh y)\<lparr>rng := g\<rparr>"
  from predict'_frame [of w set_seed self fh y] assms
  have "source_addr self y < next_addr ?v"
    and "heap ?v (source_addr self y) = heap w (source_addr self y)"
    by auto
  with assms show ?thesis
    using predict'_fst_cong [of self y ?v w set_seed fh] by simp
qed

theorem predict_reproducible_witness:
  "source_addr ex_self None < next_addr (ex_world :: (nat, int) world) \<and>
   fst (predict' ex_set_seed ex_self
          (snd (predict' ex_set_seed ex_self ex_world (Some ex_fh) None)\<lparr>rng := 7\<rparr>) (Some ex_fh) None) =
     Inr \<lparr>index = MultiIndex [(1, 3), (1, 4), (2, 3), (2, 4)], names = [''id'', ''t''],
          columns = [''y''], vals = [[46], [74], [89], [118]]\<rparr>"
  using predict_reproducible
      [where set_seed = ex_set_seed and fh = "Some ex_fh" and g = 7, OF ex_src_None]
    ex_src_None ex_panel_table
  by simp

subsection \<open>Malformed panels\<close>

lemma set_np_unique: "set (np_unique xs) = set xs"
  by (simp add: np_unique_def)

lemma same_index'_mismatch:
  assumes "index data = MultiIndex ix"
    and "k1 \<in> fst ` set ix" "k2 \<in> fst ` set ix"
    and "group_times ix k1 \<noteq> group_times ix k2"
  shows "same_index' data = Inl AssertionError"
proof -
  let ?d = "map snd (groupby_times ix)"
  have d: "?d = map (group_times ix) (np_unique (map fst ix))"
    by (simp add: groupby_times_def comp_def)
  have in1: "group_times ix k1 \<in> set ?d" and in2: "group_times ix k2 \<in> set ?d"
    using assms(2,3) unfolding d by (auto simp: set_np_unique)
  then obtain d0 ds where c: "?d = d0 # ds" by (cases ?d) auto
  have "\<not> list_all (\<lambda>x. x = d0) (d0 # ds)"
  proof
    assume "list_all (\<lambda>x. x = d0) (d0 # ds)"
    then have "\<forall>x\<in>set ?d. x = d0" unfolding c by (simp add: list_all_iff)
    with in1 in2 have "group_times ix k1 = group_times ix k2" by metis
    with assms(4) show False by simp
  qed
  with c assms(1) show ?thesis by (simp add: same_index'_def)
qed

text \<open>
  Claim C2. When two groups of a panel do not have the same sequence of time points (in
  particular when their numbers of time points differ), a predict call raises an error
  and the pipeline has received no call. When the stored seed is accepted by
  \<^verbatim>\<open>set_seed\<close> and the horizon is absent or not empty, the error is the assertion error
  of \<^verbatim>\<open>_same_index\<close>, raised during reshaping. (A refused seed and an empty horizon
  raise \<^verbatim>\<open>ValueError\<close> at lines 150 and 153, before the reshaping.)
\<close>

theorem mismatched_panel_rejected:
  fixes w :: "('k::linorder, 'r) world"
  assumes "source_addr self y < next_addr w"
    and "index (heap w (source_addr self y)) = MultiIndex ix"
    and "k1 \<in> fst ` set ix" and "k2 \<in> fst ` set ix"
    and "group_times ix k1 \<noteq> group_times ix k2"
  shows "(\<exists>e. fst (predict' set_seed self w fh y) = Inl e) \<and>
         predict_log (snd (predict' set_seed self w fh y)) = predict_log w \<and>
         ((\<exists>g. set_seed (seed' self) = Inr g) \<and>
          (fh = None \<or> (\<exists>f. fh = Some f \<and> fh_values f \<noteq> [])) \<longrightarrow>
          fst (predict' set_seed self w fh y) = Inl AssertionError)"
proof (cases "set_seed (seed' self)")
  case (Inl e)
  then show ?thesis by (simp add: predict'_refused)
next
  case seeded: (Inr g)
  let ?R = "predict' set_seed self w fh y"
  have rs: "reshape_input (heap w (source_addr self y)) = Inl AssertionError"
    using same_index'_mismatch [OF assms(2-5)] assms(2)
    by (simp add: reshape_input_def frame2numpy'_def)
  from predict'_log
    [where set_seed = set_seed and self = self and y = y and w = w and fh = fh,
     OF seeded] assms(1)
  obtain new where
    lg: "predict_log (snd ?R) = predict_log w @ new"
    and cs: "case compute_prediction_length self fh of
        Inl e \<Rightarrow> new = [] \<and> fst ?R = Inl e
      | Inr pl \<Rightarrow>
         (case reshape_input (heap w (source_addr self y)) of
            Inl e \<Rightarrow> new = [] \<and> fst ?R = Inl e
          | Inr arr \<Rightarrow>
             length new \<le> length arr \<and>
             list_all2 (\<lambda>g e. \<exists>p. pipeline_call_args self pl g = Inr (p, fst e))
               (take (length new) arr) new \<and>
             (\<forall>tab. fst ?R = Inr tab \<longrightarrow> length new = length arr))"
    by auto
  have err: "(\<exists>e. fst ?R = Inl e) \<and> predict_log (snd ?R) = predict_log w"
    using cs rs lg by (cases "compute_prediction_length self fh") simp_all
  have "fst ?R = Inl AssertionError"
    if "fh = None \<or> (\<exists>f. fh = Some f \<and> fh_values f \<noteq> [])"
  proof -
    from that obtain pl where pl: "compute_prediction_length self fh = Inr pl"
      by (cases "to_relative (the fh) (cutoff self)")
        (auto simp: compute_prediction_length_def py_max_def to_relative_def split: if_splits)
    from cs pl rs show ?thesis by simp
  qed
  with err show ?thesis by blast
qed

theorem mismatched_panel_rejected_witness:
  "source_addr ex_self (Some 2) < next_addr (ex_world :: (nat, int) world) \<and>
   index (heap (ex_world :: (nat, int) world) (source_addr ex_self (Some 2))) =
     MultiIndex [(1, 0), (1, 1), (1, 2), (2, 1), (2, 2)] \<and>
   group_times [(1 :: nat, 0), (1, 1), (1, 2), (2, 1), (2, 2)] 1 = [0, 1, 2] \<and>
   group_times [(1 :: nat, 0), (1, 1), (1, 2), (2, 1), (2, 2)] 2 = [1, 2] \<and>
   ex_set_seed (seed' ex_self) = Inr 42 \<and> fh_values ex_fh = [1, 2] \<and>
   fst (predict' ex_set_seed ex_self ex_world (Some ex_fh) (Some 2)) = Inl AssertionError \<and>
   predict_log (snd (predict' ex_set_seed ex_self ex_world (Some ex_fh) (Some 2))) = []"
proof -
  let ?ix = "[(1 :: nat, 0 :: int), (1, 1), (1, 2), (2, 1), (2, 2)]"
  have h1: "source_addr ex_self (Some 2) < next_addr (ex_world :: (nat, int) world)"
    by (simp add: source_addr_def ex_world_def)
  have h2: "index (heap (ex_world :: (nat, int) world) (source_addr ex_self (Some 2))) =
      MultiIndex ?ix"
    by (simp add: source_addr_def ex_world_def ex_ragged_def)
  have g1: "group_times ?ix 1 = [0, 1, 2]" and g2: "group_times ?ix 2 = [1, 2]"
    by (simp_all add: group_times_def)
  have h3: "1 \<in> fst ` set ?ix" and h4: "2 \<in> fst ` set ?ix" by simp_all
  have h5: "group_times ?ix 1 \<noteq> group_times ?ix 2" by (simp add: group_times_def)
  have fv: "fh_values ex_fh = [1, 2]" by (simp add: ex_fh_def)
  have h6: "(\<exists>g. ex_set_seed (seed' ex_self) = Inr g) \<and>
      (Some ex_fh = None \<or> (\<exists>f. Some ex_fh = Some f \<and> fh_values f \<noteq> []))"
    by (simp add: ex_seeded fv)
  have lg: "predict_log (ex_world :: (nat, int) world) = []" by (simp add: ex_world_def)
  note th = mismatched_panel_rejected
    [where set_seed = ex_set_seed and fh = "Some ex_fh", OF h1 h2 h3 h4 h5]
  from th h6 have "fst (predict' ex_set_seed ex_self ex_world (Some ex_fh) (Some 2)) =
      Inl AssertionError"
    by blast
  moreover from th lg
  have "predict_log (snd (predict' ex_set_seed ex_self ex_world (Some ex_fh) (Some 2))) = []"
    by simp
  ultimately show ?thesis using h1 h2 g1 g2 ex_seeded fv by blast
qed

subsection \<open>What the pipeline is called with\<close>

lemma slice_last_most_recent:
  "0 < c \<Longrightarrow> slice_last c xs = most_recent (min (length xs) (nat c)) xs"
  by (simp add: slice_last_def most_recent_def min_def)

text \<open>
  Claim C5. With a loaded pipeline of positive context length, the calls of a predict
  call go through the groups of the reshaped input in order; the call for group \<open>i\<close>
  is passed the most recent \<open>min L context_length\<close> steps of that group's series
  (its first column, of \<open>L\<close> steps), the sample count, temperature, top-k and top-p
  of the merged configuration, and prediction-length limiting switched off. When the
  predict call returns a table, every group has had its call.
\<close>

theorem pipeline_calls_truncated_history:
  fixes w :: "('k::linorder, 'r) world"
  assumes "source_addr self y < next_addr w"
    and "reshape_input (heap w (source_addr self y)) = Inr arr"
    and "model_pipeline self = Some p"
    and "0 < context_length p"
  shows "\<exists>new.
     predict_log (snd (predict' set_seed self w fh y)) = predict_log w @ new \<and>
     length new \<le> length arr \<and>
     ((\<exists>tab. fst (predict' set_seed self w fh y) = Inr tab) \<longrightarrow> length new = length arr) \<and>
     (\<forall>i<length new.
        arg_context (fst (new ! i)) =
          most_recent (min (length (arr ! i)) (nat (context_length p))) (map hd (arr ! i)) \<and>
        config' self ''num_samples'' = Some (num_samples (fst (new ! i))) \<and>
        config' self ''temperature'' = Some (temperature (fst (new ! i))) \<and>
        config' self ''top_k'' = Some (top_k (fst (new ! i))) \<and>
        config' self ''top_p'' = Some (top_p (fst (new ! i))) \<and>
        \<not> limit_prediction_length (fst (new ! i)))"
proof (cases "set_seed (seed' self)")
  case (Inl e)
  then show ?thesis by (intro exI [of _ "[]"]) (simp add: predict'_refused)
next
  case seeded: (Inr g)
  let ?R = "predict' set_seed self w fh y"
  from predict'_log
    [where set_seed = set_seed and self = self and y = y and w = w and fh = fh,
     OF seeded] assms(1)
  obtain new where
    lg: "predict_log (snd ?R) = predict_log w @ new"
    and cs: "case compute_prediction_length self fh of
        Inl e \<Rightarrow> new = [] \<and> fst ?R = Inl e
      | Inr pl \<Rightarrow>
         (case reshape_input (heap w (source_addr self y)) of
            Inl e \<Rightarrow> new = [] \<and> fst ?R = Inl e
          | Inr arr \<Rightarrow>
             length new \<le> length arr \<and>
             list_all2 (\<lambda>g e. \<exists>p. pipeline_call_args self pl g = Inr (p, fst e))
               (take (length new) arr) new \<and>
             (\<forall>tab. fst ?R = Inr tab \<longrightarrow> length new = length arr))"
    by auto
  show ?thesis
  proof (cases "compute_prediction_length self fh")
    case (Inl e)
    with cs lg show ?thesis by (intro exI [of _ "[]"]) simp
  next
    case (Inr pl)
    with cs assms(2) have le: "length new \<le> length arr"
      and la: "list_all2 (\<lambda>g e. \<exists>p. pipeline_call_args self pl g = Inr (p, fst e))
               (take (length new) arr) new"
      and ok: "\<forall>tab. fst ?R = Inr tab \<longrightarrow> length new = length arr"
      by simp_all
    have "arg_context (fst (new ! i)) =
          most_recent (min (length (arr ! i)) (nat (context_length p))) (map hd (arr ! i)) \<and>
        config' self ''num_samples'' = Some (num_samples (fst (new ! i))) \<and>
        config' self ''temperature'' = Some (temperature (fst (new ! i))) \<and>
        config' self ''top_k'' = Some (top_k (fst (new ! i))) \<and>
        config' self ''top_p'' = Some (top_p (fst (new ! i))) \<and>
        \<not> limit_prediction_length (fst (new ! i))" if i: "i < length new" for i
    proof -
      from list_all2_nthD2 [OF la i] i obtain q where
        "pipeline_call_args self pl (arr ! i) = Inr (q, fst (new ! i))"
        by auto
      from pipeline_call_args_Inr [OF this] assms(3,4) show ?thesis
        by (simp add: slice_last_most_recent)
    qed
    with lg le ok show ?thesis by blast
  qed
qed

lemma ex_panel_reshape:
  "reshape_input (heap (ex_world :: (nat, int) world) (source_addr ex_self None)) =
     Inr [[[1], [2], [3]], [[10], [20], [30]]]"
  by code_simp

theorem pipeline_calls_truncated_history_witness:
  "source_addr ex_self None < next_addr (ex_world :: (nat, int) world) \<and>
   reshape_input (heap (ex_world :: (nat, int) world) (source_addr ex_self None)) =
     Inr [[[1], [2], [3]], [[10], [20], [30]]] \<and>
   model_pipeline ex_self = Some ex_pipe \<and> 0 < context_length ex_pipe \<and>
   map (\<lambda>e. arg_context (fst e))
     (predict_log (snd (predict' ex_set_seed ex_self ex_world (Some ex_fh) None))) = [[2, 3], [20, 30]] \<and>
   map (\<lambda>e. num_samples (fst e))
     (predict_log (snd (predict' ex_set_seed ex_self ex_world (Some ex_fh) None))) = [PyInt 3, PyInt 3] \<and>
   map (\<lambda>e. limit_prediction_length (fst e))
     (predict_log (snd (predict' ex_set_seed ex_self ex_world (Some ex_fh) None))) = [False, False]"
proof -
  let ?arr = "[[[1], [2], [3]], [[10], [20], [30]]] :: real list list list"
  let ?L = "predict_log (snd (predict' ex_set_seed ex_self ex_world (Some ex_fh) None))"
  have h3: "model_pipeline ex_self = Some ex_pipe" by (simp add: ex_self_def)
  have h4: "0 < context_length ex_pipe" by (simp add: ex_pipe_def)
  have ns: "config' ex_self ''num_samples'' = Some (PyInt 3)"
    by (simp add: ex_self_def init_def)
  from pipeline_calls_truncated_history
    [where set_seed = ex_set_seed and fh = "Some ex_fh", OF ex_src_None ex_panel_reshape h3 h4]
  obtain new where
    lg: "?L = predict_log (ex_world :: (nat, int) world) @ new"
    and al: "\<forall>i<length new.
        arg_context (fst (new ! i)) =
          most_recent (min (length (?arr ! i)) (nat (context_length ex_pipe)))
            (map hd (?arr ! i)) \<and>
        config' ex_self ''num_samples'' = Some (num_samples (fst (new ! i))) \<and>
        config' ex_self ''temperature'' = Some (temperature (fst (new ! i))) \<and>
        config' ex_self ''top_k'' = Some (top_k (fst (new ! i))) \<and>
        config' ex_self ''top_p'' = Some (top_p (fst (new ! i))) \<and>
        \<not> limit_prediction_length (fst (new ! i))"
    by blast
  from lg have n: "new = ?L" by (simp add: ex_world_def)
  from ex_panel_log_length obtain e0 e1 where L: "?L = [e0, e1]"
    by (cases ?L; cases "tl ?L"; cases "tl (tl ?L)") auto
  from al [rule_format, of 0] al [rule_format, of 1] n L ns
  have "arg_context (fst e0) = [2, 3]" "arg_context (fst e1) = [20, 30]"
    "num_samples (fst e0) = PyInt 3" "num_samples (fst e1) = PyInt 3"
    "\<not> limit_prediction_length (fst e0)" "\<not> limit_prediction_length (fst e1)"
    by (simp_all add: most_recent_def ex_pipe_def)
  with L ex_src_None ex_panel_reshape h3 h4 show ?thesis by simp
qed

subsection \<open>The point forecast\<close>

lemma sorted_count_le:
  fixes s :: "real list"
  assumes "sorted s" "k < length s" "s ! k \<le> m"
  shows "Suc k \<le> length (filter (\<lambda>x. x \<le> m) s)"
proof -
  have "\<forall>x\<in>set (take (Suc k) s). x \<le> m"
  proof
    fix x assume "x \<in> set (take (Suc k) s)"
    then obtain i where "i < Suc k" "i < length s" "x = s ! i"
      by (auto simp: in_set_conv_nth)
    with assms sorted_nth_mono [of s i k] show "x \<le> m" by auto
  qed
  then have "filter (\<lambda>x. x \<le> m) (take (Suc k) s) = take (Suc k) s"
    by (simp add: filter_id_conv)
  moreover have "filter (\<lambda>x. x \<le> m) s =
      filter (\<lambda>x. x \<le> m) (take (Suc k) s) @ filter (\<lambda>x. x \<le> m) (drop (Suc k) s)"
    by (simp add: filter_append [symmetric])
  ultimately show ?thesis using assms(2) by simp
qed

lemma sorted_count_ge:
  fixes s :: "real list"
  assumes "sorted s" "k < length s" "m \<le> s ! k"
  shows "length s - k \<le> length (filter (\<lambda>x. m \<le> x) s)"
proof -
  have "\<forall>x\<in>set (drop k s). m \<le> x"
  proof
    fix x assume "x \<in> set (drop k s)"
    then obtain i where "i < length s - k" "x = s ! (k + i)"
      by (auto simp: in_set_conv_nth)
    moreover from this assms(2) have "k + i < length s" by simp
    ultimately show "m \<le> x"
      using assms(1,3) sorted_nth_mono [of s k "k + i"] by fastforce
  qed
  then have "filter (\<lambda>x. m \<le> x) (drop k s) = drop k s"
    by (simp add: filter_id_conv)
  moreover have "filter (\<lambda>x. m \<le> x) s =
      filter (\<lambda>x. m \<le> x) (take k s) @ filter (\<lambda>x. m \<le> x) (drop k s)"
    by (simp add: filter_append [symmetric])
  ultimately show ?thesis by simp
qed

lemma length_filter_sort:
  "length (filter P (sort xs)) = length (filter P xs)"
  by (simp add: filter_sort)

lemma np_median_is_median:
  assumes "xs \<noteq> []"
  shows "is_median (np_median xs) xs"
proof -
  define s where "s = sort xs"
  define n where "n = length xs"
  have srt: "sorted s" and len: "length s = n" and pos: "0 < n"
    using assms by (simp_all add: s_def n_def)
  have cnt: "length (filter P xs) = length (filter P s)" for P
    by (simp add: s_def length_filter_sort)
  show ?thesis
  proof (cases "odd n")
    case True
    then have m: "np_median xs = s ! (n div 2)"
      by (simp add: np_median_def Let_def s_def n_def)
    have k: "n div 2 < length s" using pos len by simp
    from sorted_count_le [OF srt k, of "s ! (n div 2)"]
    have "Suc (n div 2) \<le> length (filter (\<lambda>x. x \<le> np_median xs) xs)"
      by (simp add: m cnt)
    moreover from sorted_count_ge [OF srt k, of "s ! (n div 2)"]
    have "n - n div 2 \<le> length (filter (\<lambda>x. np_median xs \<le> x) xs)"
      by (simp add: m cnt len)
    ultimately show ?thesis
      unfolding is_median_def n_def [symmetric] by linarith
  next
    case False
    then have ev: "even n" by simp
    with pos have n2: "2 \<le> n" by presburger
    define a where "a = s ! (n div 2 - 1)"
    define b where "b = s ! (n div 2)"
    have m: "np_median xs = (a + b) / 2"
      using False by (simp add: np_median_def Let_def s_def n_def a_def b_def)
    have ka: "n div 2 - 1 < length s" and kb: "n div 2 < length s"
      using n2 len by simp_all
    have ab: "a \<le> b"
      unfolding a_def b_def using sorted_nth_mono [OF srt _ kb, of "n div 2 - 1"] by simp
    then have am: "a \<le> np_median xs" and mb: "np_median xs \<le> b"
      by (simp_all add: m)
    from sorted_count_le [OF srt ka, of "np_median xs"] am
    have "Suc (n div 2 - 1) \<le> length (filter (\<lambda>x. x \<le> np_median xs) xs)"
      by (simp add: a_def cnt)
    moreover from sorted_count_ge [OF srt kb, of "np_median xs"] mb
    have "n - n div 2 \<le> length (filter (\<lambda>x. np_median xs \<le> x) xs)"
      by (simp add: b_def cnt len)
    ultimately show ?thesis
      unfolding is_median_def n_def [symmetric] using ev n2 by presburger
  qed
qed

lemma transpose_rect:
  assumes "a \<noteq> []" and "\<forall>s\<in>set a. length s = n"
  shows "length (transpose a) = n"
    and "t < n \<Longrightarrow> transpose a ! t = map (\<lambda>s. s ! t) a"
proof -
  show l: "length (transpose a) = n"
    using assms
  proof (induction a)
    case Nil
    then show ?case by simp
  next
    case (Cons x xs)
    then show ?case
      by (cases xs) (auto simp: length_transpose)
  qed
  assume "t < n"
  with l have "transpose a ! t = map (\<lambda>s. s ! t) (filter (\<lambda>ys. t < length ys) a)"
    by (simp add: nth_transpose)
  moreover have "filter (\<lambda>ys. t < length ys) a = a"
    using assms(2) \<open>t < n\<close> by (simp add: filter_id_conv)
  ultimately show "transpose a ! t = map (\<lambda>s. s ! t) a" by simp
qed

lemma median_axis0_rect:
  assumes "a \<noteq> []" and "\<forall>s\<in>set a. length s = n"
  shows "length (median_axis0 a) = n \<and>
         (\<forall>t<n. median_axis0 a ! t = np_median (map (\<lambda>s. s ! t) a) \<and>
                 is_median (median_axis0 a ! t) (map (\<lambda>s. s ! t) a))"
proof -
  have l: "length (median_axis0 a) = n"
    by (simp add: median_axis0_def transpose_rect(1) [OF assms])
  have "median_axis0 a ! t = np_median (map (\<lambda>s. s ! t) a) \<and>
        is_median (median_axis0 a ! t) (map (\<lambda>s. s ! t) a)" if "t < n" for t
  proof -
    have "median_axis0 a ! t = np_median (map (\<lambda>s. s ! t) a)"
      using that transpose_rect [OF assms]
      by (simp add: median_axis0_def)
    moreover have "is_median (np_median (map (\<lambda>s. s ! t) a)) (map (\<lambda>s. s ! t) a)"
      by (rule np_median_is_median) (simp add: assms(1))
    ultimately show ?thesis by simp
  qed
  with l show ?thesis by blast
qed

lemma answer_of_Inr:
  "answer_of resp = Inr v \<Longrightarrow> \<exists>b0 bs. resp = Inr (b0 # bs) \<and> v = median_axis0 b0"
  by (auto simp: answer_of_def split: sum.splits list.splits)

text \<open>
  Claim C6. When the loop over the groups succeeds, the point forecast of every group is
  the median over the samples of the pipeline's answer for that group, step by step:
  for a rectangular, non-empty set of sampled trajectories of \<open>n\<close> steps it has
  \<open>n\<close> entries, and entry \<open>t\<close> is numpy's median of the samples' values at step
  \<open>t\<close>, which is a median of them.
\<close>

theorem point_forecast_is_median:
  fixes w :: "('k, 'r) world"
  assumes "predict_loop self pl arr w = (Inr results, w')"
  shows "\<exists>new. predict_log w' = predict_log w @ new \<and>
     length new = length arr \<and> length results = length arr \<and>
     (\<forall>i<length arr. \<exists>b0 bs.
        snd (new ! i) = Inr (b0 # bs) \<and> results ! i = median_axis0 b0 \<and>
        (\<forall>n. b0 \<noteq> [] \<and> (\<forall>s\<in>set b0. length s = n) \<longrightarrow>
           length (results ! i) = n \<and>
           (\<forall>t<n. results ! i ! t = np_median (map (\<lambda>s. s ! t) b0) \<and>
                   is_median (results ! i ! t) (map (\<lambda>s. s ! t) b0))))"
proof -
  from predict_loop_log [OF assms] obtain new where
    lg: "predict_log w' = predict_log w @ new"
    and ln: "length new = length arr"
    and la: "list_all2 (\<lambda>e v. answer_of (snd e) = Inr v) new results"
    by blast
  from la have lr: "length results = length new" by (simp add: list_all2_lengthD)
  have "\<exists>b0 bs.
        snd (new ! i) = Inr (b0 # bs) \<and> results ! i = median_axis0 b0 \<and>
        (\<forall>n. b0 \<noteq> [] \<and> (\<forall>s\<in>set b0. length s = n) \<longrightarrow>
           length (results ! i) = n \<and>
           (\<forall>t<n. results ! i ! t = np_median (map (\<lambda>s. s ! t) b0) \<and>
                   is_median (results ! i ! t) (map (\<lambda>s. s ! t) b0)))"
    if i: "i < length arr" for i
  proof -
    from list_all2_nthD [OF la] i ln have "answer_of (snd (new ! i)) = Inr (results ! i)"
      by simp
    from answer_of_Inr [OF this] obtain b0 bs where
      b: "snd (new ! i) = Inr (b0 # bs)" "results ! i = median_axis0 b0"
      by blast
    have "length (results ! i) = n \<and>
           (\<forall>t<n. results ! i ! t = np_median (map (\<lambda>s. s ! t) b0) \<and>
                   is_median (results ! i ! t) (map (\<lambda>s. s ! t) b0))"
      if "b0 \<noteq> []" "\<forall>s\<in>set b0. length s = n" for n
      unfolding b(2) by (rule median_axis0_rect [OF that])
    with b show ?thesis by blast
  qed
  with lg ln lr show ?thesis by (intro exI [of _ new]) simp
qed

lemma ex_loop_results:
  "fst (predict_loop ex_self 2 [[[1], [2], [3]], [[10], [20], [30]]]
          (ex_world\<lparr>rng := 42\<rparr> :: (nat, int) world)) = Inr [[46, 89], [74, 118]]"
  by code_simp

lemma ex_loop_answers:
  "map snd (predict_log (snd (predict_loop ex_self 2 [[[1], [2], [3]], [[10], [20], [30]]]
          (ex_world\<lparr>rng := 42\<rparr> :: (nat, int) world)))) =
     [Inr [[[47, 91], [45, 87], [46, 89]]], Inr [[[75, 120], [73, 116], [74, 118]]]]"
  by code_simp

theorem point_forecast_is_median_witness:
  "fst (predict_loop ex_self 2 [[[1], [2], [3]], [[10], [20], [30]]]
          (ex_world\<lparr>rng := 42\<rparr> :: (nat, int) world)) = Inr [[46, 89], [74, 118]] \<and>
   map snd (predict_log (snd (predict_loop ex_self 2 [[[1], [2], [3]], [[10], [20], [30]]]
          (ex_world\<lparr>rng := 42\<rparr> :: (nat, int) world)))) =
     [Inr [[[47, 91], [45, 87], [46, 89]]], Inr [[[75, 120], [73, 116], [74, 118]]]] \<and>
   is_median 46 [47, 45, 46] \<and> is_median 89 [91, 87, 89] \<and>
   is_median 74 [75, 73, 74] \<and> is_median 118 [120, 116, 118]"
proof -
  let ?arr = "[[[1], [2], [3]], [[10], [20], [30]]] :: real list list list"
  let ?res = "[[46, 89], [74, 118]] :: real list list"
  let ?w = "ex_world\<lparr>rng := 42\<rparr> :: (nat, int) world"
  let ?w' = "snd (predict_loop ex_self 2 ?arr ?w)"
  have run: "predict_loop ex_self 2 ?arr ?w = (Inr ?res, ?w')"
    using ex_loop_results by (simp add: prod_eq_iff)
  from point_forecast_is_median [OF run] obtain new where
    lg: "predict_log ?w' = predict_log ?w @ new"
    and al: "\<forall>i<length ?arr. \<exists>b0 bs.
        snd (new ! i) = Inr (b0 # bs) \<and> ?res ! i = median_axis0 b0 \<and>
        (\<forall>n. b0 \<noteq> [] \<and> (\<forall>s\<in>set b0. length s = n) \<longrightarrow>
           length (?res ! i) = n \<and>
           (\<forall>t<n. ?res ! i ! t = np_median (map (\<lambda>s. s ! t) b0) \<and>
                   is_median (?res ! i ! t) (map (\<lambda>s. s ! t) b0)))"
    by blast
  from lg have n: "new = predict_log ?w'" by (simp add: ex_world_def)
  from ex_loop_answers n have s0: "snd (new ! 0) = Inr [[[47, 91], [45, 87], [46, 89]]]"
    and s1: "snd (new ! 1) = Inr [[[75, 120], [73, 116], [74, 118]]]"
    by (auto simp: map_eq_Cons_conv)
  have l0: "0 < length ?arr" and l1: "1 < length ?arr" by simp_all
  from al l0 have "\<exists>b0 bs.
        snd (new ! 0) = Inr (b0 # bs) \<and> ?res ! 0 = median_axis0 b0 \<and>
        (\<forall>n. b0 \<noteq> [] \<and> (\<forall>s\<in>set b0. length s = n) \<longrightarrow>
           length (?res ! 0) = n \<and>
           (\<forall>t<n. ?res ! 0 ! t = np_median (map (\<lambda>s. s ! t) b0) \<and>
                   is_median (?res ! 0 ! t) (map (\<lambda>s. s ! t) b0)))"
    by blast
  then obtain b0 bs where b0: "snd (new ! 0) = Inr (b0 # bs)"
    and i0: "b0 \<noteq> [] \<and> (\<forall>s\<in>set b0. length s = 2) \<longrightarrow>
           (\<forall>t<2. is_median (?res ! 0 ! t) (map (\<lambda>s. s ! t) b0))"
    by blast
  from b0 s0 have "b0 = [[47, 91], [45, 87], [46, 89]]" by simp
  with i0 have m0: "\<forall>t<2. is_median (?res ! 0 ! t)
      (map (\<lambda>s. s ! t) [[47, 91], [45, 87], [46, 89]])"
    by simp
  from al l1 have "\<exists>b0 bs.
        snd (new ! 1) = Inr (b0 # bs) \<and> ?res ! 1 = median_axis0 b0 \<and>
        (\<forall>n. b0 \<noteq> [] \<and> (\<forall>s\<in>set b0. length s = n) \<longrightarrow>
           length (?res ! 1) = n \<and>
           (\<forall>t<n. ?res ! 1 ! t = np_median (map (\<lambda>s. s ! t) b0) \<and>
                   is_median (?res ! 1 ! t) (map (\<lambda>s. s ! t) b0)))"
    by blast
  then obtain b1 bs1 where b1: "snd (new ! 1) = Inr (b1 # bs1)"
    and i1: "b1 \<noteq> [] \<and> (\<forall>s\<in>set b1. length s = 2) \<longrightarrow>
           (\<forall>t<2. is_median (?res ! 1 ! t) (map (\<lambda>s. s ! t) b1))"
    by blast
  from b1 s1 have "b1 = [[75, 120], [73, 116], [74, 118]]" by simp
  with i1 have m1: "\<forall>t<2. is_median (?res ! 1 ! t)
      (map (\<lambda>s. s ! t) [[75, 120], [73, 116], [74, 118]])"
    by simp
  from m0 [rule_format, of 0] m0 [rule_format, of 1]
  have "is_median 46 [47, 45, 46]" "is_median 89 [91, 87, 89]" by simp_all
  moreover from m1 [rule_format, of 0] m1 [rule_format, of 1]
  have "is_median 74 [75, 73, 74]" "is_median 118 [120, 116, 118]" by simp_all
  ultimately show ?thesis using ex_loop_results ex_loop_answers by blast
qed

subsection \<open>A flat series\<close>

lemma to_absolute_relative:
  "to_absolute f c = map (\<lambda>r. c + r) (to_relative f c)"
  by (simp add: to_absolute_def to_relative_def comp_def)

lemma length_to_relative: "length (to_relative f c) = length (fh_values f)"
  by (simp add: to_relative_def)

lemma distinct_to_absolute: "distinct (fh_values f) \<Longrightarrow> distinct (to_absolute f c)"
  by (simp add: to_absolute_def distinct_map)

lemma py_max_nonempty: "xs \<noteq> [] \<Longrightarrow> py_max xs = Inr (Max (set xs))"
  using Max.set_eq_fold [of "hd xs" "tl xs"] by (cases xs) (simp_all add: py_max_def)

lemma mask_list_map: "mask_list (map P xs) (map h xs) = map h (filter P xs)"
  by (induction xs) (simp_all add: mask_list_def)

lemma mask_list_self: "mask_list (map P xs) xs = filter P xs"
  using mask_list_map [of P xs "\<lambda>x. x"] by simp

text \<open>The time points of the generated steps 1 to n after the cutoff.\<close>

lemma generated_steps:
  "to_absolute (fh_range n) c = map (\<lambda>r. c + r) [1..int n]"
  by (simp add: to_absolute_def fh_range_def)

lemma generated_steps_props:
  fixes c :: int
  defines "T \<equiv> \<lambda>n. map (\<lambda>r. c + r) [1..int n]"
  shows "length (T n) = n" and "sorted (T n)" and "distinct (T n)"
    and "set (T n) = {c + 1..c + int n}"
    and "i < n \<Longrightarrow> T n ! i = c + 1 + int i"
proof -
  show "length (T n) = n" by (simp add: T_def)
  show "sorted (T n)" by (simp add: T_def sorted_map sorted_wrt_iff_nth_less)
  show "distinct (T n)" by (simp add: T_def distinct_map inj_on_def)
  show "set (T n) = {c + 1..c + int n}"
  proof -
    have "(\<lambda>r. c + r) ` {1..int n} = {c + 1..c + int n}"
      using image_add_atLeastAtMost [of c 1 "int n"] by simp
    then show ?thesis by (simp add: T_def)
  qed
  show "i < n \<Longrightarrow> T n ! i = c + 1 + int i" by (simp add: T_def)
qed

lemma filter_requested_sorted:
  fixes T A :: "int list"
  assumes "sorted T" "distinct T" "distinct A" "set A \<subseteq> set T"
  shows "filter (\<lambda>x. x \<in> set A) T = sort A"
proof (rule sorted_distinct_set_unique)
  show "sorted (filter (\<lambda>x. x \<in> set A) T)"
    using sorted_filter [of "\<lambda>x. x" T] assms(1) by simp
  show "distinct (filter (\<lambda>x. x \<in> set A) T)" using assms(2) by simp
  show "sorted (sort A)" by simp
  show "distinct (sort A)" using assms(3) by simp
  show "set (filter (\<lambda>x. x \<in> set A) T) = set (sort A)" using assms(4) by auto
qed

lemma np_stack_axis1_single:
  "np_stack_axis1 [m] = Inr (map (\<lambda>t. [m ! t]) [0..<length m])"
  by (simp add: np_stack_axis1_def)

lemma reshape_col_single:
  "reshape_col (map (\<lambda>t. [m ! t]) [0..<length m]) = map (\<lambda>v. [v]) m"
proof -
  have "concat (map (\<lambda>t. [m ! t]) [0..<length m]) = map (\<lambda>t. m ! t) [0..<length m]"
    by (induction "[0..<length m]" arbitrary: m) (simp_all add: concat_map_singleton)
  then show ?thesis by (simp add: reshape_col_def map_nth)
qed

lemma assemble_flat:
  fixes y_df :: "'k::linorder DataFrame"
  assumes "index y_df = Index ts" and "length (columns y_df) = 1"
    and T: "to_absolute (fh_range (length m)) (cutoff self) = T"
  shows "assemble self (Some f) y_df [m] =
     Inr \<lparr>index = Index (filter (\<lambda>x. x \<in> set (to_absolute f (cutoff self))) T),
          names = names y_df, columns = columns y_df,
          vals = mask_list (map (\<lambda>x. x \<in> set (to_absolute f (cutoff self))) T)
                   (map (\<lambda>v. [v]) m)\<rparr>"
proof -
  have lT: "length T = length m"
    unfolding T [symmetric] by (simp add: to_absolute_def fh_range_def)
  have bi: "build_index y_df (cutoff self) (length m) K = Inr (Index T)" for K
    using assms(1) T by (simp add: build_index_def)
  have df: "pd_DataFrame (map (\<lambda>v. [v]) m) (Index T :: 'k index) (columns y_df) =
      Inr \<lparr>index = Index T, names = [], columns = columns y_df, vals = map (\<lambda>v. [v]) m\<rparr>"
    using assms(2) lT by (simp add: pd_DataFrame_def list_all_iff)
  show ?thesis
    by (simp add: assemble_def np_stack_axis1_single reshape_col_single bi df
        get_expected_pred_idx_def loc_def mask_list_self Let_def)
qed

lemma reshape_input_flat:
  "index y_df = Index ts \<Longrightarrow>
   reshape_input y_df = Inr [map (\<lambda>v. [v]) (concat (vals y_df))]"
  by (simp add: reshape_input_def)

lemma map_hd_singletons: "map hd (map (\<lambda>v. [v]) xs) = xs"
  by (induction xs) simp_all

text \<open>
  Claim C3. For a flat series with one value column and a horizon of \<open>H\<close> distinct
  future time points, a predict call whose stored seed \<^verbatim>\<open>set_seed\<close> accepts and whose
  pipeline call answers with a non-empty set of
  sampled trajectories of the requested length returns a table with exactly \<open>H\<close>
  rows, indexed by the requested time points in ascending order, with the column of the
  series; the row of time point \<open>t\<close> holds the point forecast of step
  \<open>t - cutoff\<close>.
\<close>

theorem flat_predict_rows:
  fixes w :: "('k::linorder, 'r) world"
  assumes src: "source_addr self y < next_addr w"
    and ydf: "heap w (source_addr self y) = y_df"
    and flat: "index y_df = Index ts"
    and col: "length (columns y_df) = 1"
    and fhne: "fh_values f \<noteq> []"
    and fhd: "distinct (fh_values f)"
    and fut: "\<forall>r\<in>set (to_relative f (cutoff self)). 1 \<le> r"
    and P: "P = Max (set (to_relative f (cutoff self)))"
    and seeded: "set_seed (seed' self) = Inr sd"
    and pipe: "model_pipeline self = Some p"
    and cfg: "config' self ''num_samples'' = Some ns" "config' self ''temperature'' = Some te"
      "config' self ''top_k'' = Some tk" "config' self ''top_p'' = Some tp"
    and ans: "predict p sd
        \<lparr>arg_context = slice_last (context_length p) (concat (vals y_df)),
          prediction_length = P, num_samples = ns, temperature = te, top_k = tk,
          top_p = tp, limit_prediction_length = False\<rparr> = (Inr (b0 # bs), g')"
    and b0: "b0 \<noteq> []" "\<forall>s\<in>set b0. length s = nat P"
  shows "\<exists>tab. fst (predict' set_seed self w (Some f) y) = Inr tab \<and>
     index tab = Index (sort (to_absolute f (cutoff self))) \<and>
     length (vals tab) = length (fh_values f) \<and>
     vals tab = map (\<lambda>t. [median_axis0 b0 ! nat (t - cutoff self - 1)])
                  (sort (to_absolute f (cutoff self))) \<and>
     columns tab = columns y_df \<and> names tab = names y_df"
proof -
  let ?c = "cutoff self"
  let ?rel = "to_relative f ?c"
  let ?A = "to_absolute f ?c"
  define m where "m = median_axis0 b0"
  define n where "n = nat P"
  define T where "T = map (\<lambda>r. ?c + r) [1..int n]"
  define g where "g = map (\<lambda>v. [v]) (concat (vals y_df))"
  define c where "c = \<lparr>arg_context = slice_last (context_length p) (concat (vals y_df)),
          prediction_length = P, num_samples = ns, temperature = te, top_k = tk,
          top_p = tp, limit_prediction_length = False\<rparr>"
  have relne: "?rel \<noteq> []" using fhne by (simp add: to_relative_def)
  have pl: "compute_prediction_length self (Some f) = Inr P"
    using relne by (simp add: compute_prediction_length_def py_max_nonempty P)
  have rs: "reshape_input y_df = Inr [g]"
    using flat by (simp add: reshape_input_flat g_def)
  have lm: "length m = n"
    using median_axis0_rect [OF b0] by (simp add: m_def n_def)
  have args: "pipeline_call_args self P g = Inr (p, c)"
    using pipeline_call_args_ok [OF pipe cfg, of P g]
    by (simp add: g_def c_def comp_def)
  from predict'_unfold
    [where set_seed = set_seed and self = self and y = y and w = w and fh = "Some f",
     OF seeded] src ydf
  obtain w3 :: "('k, 'r) world" where
    w3: "rng w3 = sd"
    and un: "predict' set_seed self w (Some f) y =
       (case compute_prediction_length self (Some f) of
          Inl e \<Rightarrow> (Inl e, w\<lparr>rng := sd\<rparr>)
        | Inr pl \<Rightarrow>
           (case reshape_input y_df of
              Inl e \<Rightarrow> (Inl e, w3)
            | Inr arr \<Rightarrow>
               (case predict_loop self pl arr w3 of
                  (Inl e, w4) \<Rightarrow> (Inl e, w4)
                | (Inr results, w4) \<Rightarrow> (assemble self (Some f) y_df results, w4))))"
    by auto
  have "predict p (rng w3) c = (Inr (b0 # bs), g')"
    using ans w3 by (simp add: c_def)
  from predict_step_Inr [OF args this]
  have st: "predict_step self P g w3 =
      (Inr m, w3\<lparr>rng := g', predict_log := predict_log w3 @ [(c, Inr (b0 # bs))]\<rparr>)"
    by (simp add: answer_of_def m_def)
  have lp: "fst (predict_loop self P [g] w3) = Inr [m]"
    by (simp add: st)
  have res: "fst (predict' set_seed self w (Some f) y) = assemble self (Some f) y_df [m]"
    using un pl rs lp by (simp split: prod.splits sum.splits)
  have Tg: "to_absolute (fh_range (length m)) ?c = T"
    by (simp add: generated_steps lm T_def)
  note tp = generated_steps_props [where c = ?c and n = n, folded T_def]
  have A: "?A = map (\<lambda>r. ?c + r) ?rel" by (rule to_absolute_relative)
  have dA: "distinct ?A" using fhd by (rule distinct_to_absolute)
  have sub: "set ?A \<subseteq> set T"
  proof
    fix t assume "t \<in> set ?A"
    then obtain r where r: "r \<in> set ?rel" "t = ?c + r" unfolding A by auto
    then have "1 \<le> r" using fut by simp
    moreover have "r \<le> P" using r(1) unfolding P by simp
    ultimately show "t \<in> set T" using r(2) by (simp add: tp(4) n_def)
  qed
  have fl: "filter (\<lambda>x. x \<in> set ?A) T = sort ?A"
    by (rule filter_requested_sorted [OF tp(2) tp(3) dA sub])
  have mT: "map (\<lambda>v. [v]) m = map (\<lambda>t. [m ! nat (t - ?c - 1)]) T"
  proof (rule nth_equalityI)
    show "length (map (\<lambda>v. [v]) m) = length (map (\<lambda>t. [m ! nat (t - ?c - 1)]) T)"
      by (simp add: lm tp(1))
    fix i assume "i < length (map (\<lambda>v. [v]) m)"
    then have i: "i < n" by (simp add: lm)
    with tp(5) [OF i] show "map (\<lambda>v. [v]) m ! i = map (\<lambda>t. [m ! nat (t - ?c - 1)]) T ! i"
      by (simp add: lm tp(1))
  qed
  have vl: "mask_list (map (\<lambda>x. x \<in> set ?A) T) (map (\<lambda>v. [v]) m) =
      map (\<lambda>t. [m ! nat (t - ?c - 1)]) (sort ?A)"
    unfolding mT by (simp add: mask_list_map fl)
  have lA: "length ?A = length (fh_values f)"
    by (simp add: to_absolute_def)
  from assemble_flat [OF flat col Tg, of f] res
  have "fst (predict' set_seed self w (Some f) y) =
     Inr \<lparr>index = Index (sort ?A), names = names y_df, columns = columns y_df,
          vals = map (\<lambda>t. [m ! nat (t - ?c - 1)]) (sort ?A)\<rparr>"
    by (simp add: fl vl)
  then show ?thesis by (simp add: m_def lA)
qed

lemma ex_flat_answer:
  "predict ex_pipe 42
     \<lparr>arg_context = slice_last (context_length ex_pipe) (concat (vals ex_flat)),
       prediction_length = 2, num_samples = PyInt 3, temperature = PyNone, top_k = PyNone,
       top_p = PyNone, limit_prediction_length = False\<rparr> =
   (Inr ([[176, 220], [174, 216], [175, 218]] # []), 43)"
  by code_simp

lemma ex_flat_median: "median_axis0 [[176, 220], [174, 216], [175, 218]] = [175, 218]"
  by code_simp

theorem flat_predict_rows_witness:
  "source_addr ex_self (Some 1) < next_addr (ex_world :: (nat, int) world) \<and>
   heap (ex_world :: (nat, int) world) (source_addr ex_self (Some 1)) = ex_flat \<and>
   index ex_flat = Index [0, 1, 2] \<and> length (columns ex_flat) = 1 \<and>
   distinct (fh_values ex_fh_abs) \<and>
   to_relative ex_fh_abs (cutoff ex_self) = [2, 1] \<and>
   ex_set_seed (seed' ex_self) = Inr 42 \<and>
   model_pipeline ex_self = Some ex_pipe \<and>
   fst (predict' ex_set_seed ex_self (ex_world :: (nat, int) world) (Some ex_fh_abs) (Some 1)) =
     Inr \<lparr>index = Index [3, 4], names = [''t''], columns = [''y''],
          vals = [[175], [218]]\<rparr>"
proof -
  let ?w = "ex_world :: (nat, int) world"
  let ?b0 = "[[176, 220], [174, 216], [175, 218]] :: real list list"
  have src: "source_addr ex_self (Some 1) < next_addr ?w"
    by (simp add: source_addr_def ex_world_def)
  have ydf: "heap ?w (source_addr ex_self (Some 1)) = ex_flat"
    by (simp add: source_addr_def ex_world_def)
  have flat: "index ex_flat = Index [0, 1, 2]" by (simp add: ex_flat_def)
  have col: "length (columns ex_flat) = 1" by (simp add: ex_flat_def)
  have cut: "cutoff ex_self = 2" by (simp add: ex_self_def init_def ex_blank_def)
  have fhne: "fh_values ex_fh_abs \<noteq> []" by (simp add: ex_fh_abs_def)
  have fhd: "distinct (fh_values ex_fh_abs)" by (simp add: ex_fh_abs_def)
  have rel: "to_relative ex_fh_abs (cutoff ex_self) = [2, 1]"
    by (simp add: to_relative_def ex_fh_abs_def cut)
  have fut: "\<forall>r\<in>set (to_relative ex_fh_abs (cutoff ex_self)). 1 \<le> r"
    by (simp add: rel)
  have P: "(2 :: int) = Max (set (to_relative ex_fh_abs (cutoff ex_self)))"
    by (simp add: rel)
  have pipe: "model_pipeline ex_self = Some ex_pipe" by (simp add: ex_self_def)
  have cfg: "config' ex_self ''num_samples'' = Some (PyInt 3)"
    "config' ex_self ''temperature'' = Some PyNone"
    "config' ex_self ''top_k'' = Some PyNone"
    "config' ex_self ''top_p'' = Some PyNone"
    by (simp_all add: ex_self_def init_def default_config'_def)
  have b0: "?b0 \<noteq> []" "\<forall>s\<in>set ?b0. length s = nat 2" by simp_all
  from flat_predict_rows [where set_seed = ex_set_seed,
      OF src ydf flat col fhne fhd fut P ex_seeded pipe cfg ex_flat_answer b0]
  obtain tab :: "nat DataFrame" where
    t: "fst (predict' ex_set_seed ex_self ?w (Some ex_fh_abs) (Some 1)) = Inr tab"
    "index tab = Index (sort (to_absolute ex_fh_abs (cutoff ex_self)))"
    "vals tab = map (\<lambda>t. [median_axis0 ?b0 ! nat (t - cutoff ex_self - 1)])
                  (sort (to_absolute ex_fh_abs (cutoff ex_self)))"
    "columns tab = columns ex_flat" "names tab = names ex_flat"
    by blast
  have srt: "sort (to_absolute ex_fh_abs 2) = [3, 4]"
    by (simp add: to_absolute_def ex_fh_abs_def)
  have "tab = \<lparr>index = Index [3, 4], names = [''t''], columns = [''y''],
          vals = [[175], [218]]\<rparr>"
    using t(2-5) by (cases tab) (simp add: srt cut ex_flat_median ex_flat_def)
  with t(1) src ydf flat col fhd rel ex_seeded pipe show ?thesis by blast
qed

subsection \<open>A panel\<close>

text \<open>
  Claim C1. The table of a panel is indexed by the group keys crossed with the future
  time points, key by key; the values, however, are laid out step by step
  (\<^verbatim>\<open>np.stack(results, axis=1)\<close> followed by \<^verbatim>\<open>reshape(-1, 1)\<close>). With two groups
  and two steps, the pipeline's samples give group 1 the point forecasts 46 and 89 and
  group 2 the point forecasts 74 and 118; the returned table gives the row of group 1
  at time point 4 the value 74, the forecast of group 2 for time point 3, and the row
  of group 2 at time point 3 the value 89.
\<close>

theorem panel_rows_misplaced:
  "fst (predict' ex_set_seed ex_self ex_world (Some ex_fh) None) =
     Inr \<lparr>index = MultiIndex [(1, 3), (1, 4), (2, 3), (2, 4)], names = [''id'', ''t''],
          columns = [''y''], vals = [[46], [74], [89], [118]]\<rparr> \<and>
   map (\<lambda>e. (arg_context (fst e), answer_of (snd e)))
     (predict_log (snd (predict' ex_set_seed ex_self ex_world (Some ex_fh) None))) =
     [([2, 3], Inr [46, 89]), ([20, 30], Inr [74, 118])]"
  by code_simp

end
